theory Spec2Isabelle
  imports Main "HOL-Library.Sublist"
begin

section \<open>Finding normalization and aggregation of PHALANX / AegisPHP\<close>

text \<open>
  The repository holds two variants of the same pipeline: \<^verbatim>\<open>phalanx.py\<close> (the
  hardened one: \<^verbatim>\<open>str(...)[:N]\<close>, \<^verbatim>\<open>int(...)\<close>, a \<^verbatim>\<open>try/except\<close> around
  each adapter loop, a \<^verbatim>\<open>by_severity\<close> table) and \<^verbatim>\<open>aegisphp.py\<close> (the earlier
  one: raw values passed through, no exception handling, no \<^verbatim>\<open>by_severity\<close>).
  Both are embedded. Definitions without a prefix follow \<^verbatim>\<open>phalanx.py\<close>; the ones
  of \<^verbatim>\<open>aegisphp.py\<close> carry the prefix \<open>aegis_\<close>.

  The pipeline starts from the values \<^verbatim>\<open>json.loads\<close> returned; running the tools
  and parsing their output are outside the model.
\<close>

subsection \<open>Python values and exceptions\<close>

datatype py_error = AttributeError | TypeError | ValueError | OverflowError

text \<open>
  A value returned by \<^verbatim>\<open>json.loads\<close>. A character is a code point below 256, so
  \<open>length\<close> counts what Python's \<^verbatim>\<open>len\<close> and slices count on such strings.
  A dictionary is the list of its items in insertion order; \<open>map_of\<close> looks a
  key up. A float is given by the three observations the program can make of it:
  its \<^verbatim>\<open>str\<close>, its \<^verbatim>\<open>int\<close> (which raises on nan and the infinities) and its
  truth value. An int of a payload has at most 4300 digits: \<^verbatim>\<open>json.loads\<close>
  raises on a longer literal, under the same limit that \<^verbatim>\<open>int\<close> applies to a
  string, so \<^verbatim>\<open>str\<close> of a payload's int does not run into the limit.
\<close>

datatype json =
    JNull
  | JBool bool
  | JInt int
  | JFloat (float_str: string) (float_int: "py_error + int") (float_true: bool)
  | JStr string
  | JList "json list"
  | JObj "(string \<times> json) list"

text \<open>\<^verbatim>\<open>x.get(key, default)\<close>: only a dict has the method.\<close>

definition py_get :: "json \<Rightarrow> string \<Rightarrow> json \<Rightarrow> py_error + json" where
  "py_get x key dflt =
     (case x of
        JObj d \<Rightarrow> Inr (case map_of d key of None \<Rightarrow> dflt | Some v \<Rightarrow> v)
      | _ \<Rightarrow> Inl AttributeError)"

text \<open>The same lookup on an object already known to be a dict.\<close>

definition dget :: "(string \<times> json) list \<Rightarrow> string \<Rightarrow> json \<Rightarrow> json" where
  "dget d key dflt = (case map_of d key of None \<Rightarrow> dflt | Some v \<Rightarrow> v)"

text \<open>
  \<^verbatim>\<open>for issue in x\<close>: a list yields its elements, a string its characters (as
  one-character strings), a dict its keys; anything else raises TypeError.
\<close>

definition py_iter :: "json \<Rightarrow> py_error + json list" where
  "py_iter x =
     (case x of
        JList xs \<Rightarrow> Inr xs
      | JStr s \<Rightarrow> Inr (map (\<lambda>c. JStr [c]) s)
      | JObj d \<Rightarrow> Inr (map (\<lambda>kv. JStr (fst kv)) d)
      | _ \<Rightarrow> Inl TypeError)"

text \<open>Truth value, as used by \<^verbatim>\<open>a or b\<close>.\<close>

definition py_truthy :: "json \<Rightarrow> bool" where
  "py_truthy x =
     (case x of
        JNull \<Rightarrow> False
      | JBool b \<Rightarrow> b
      | JInt n \<Rightarrow> n \<noteq> 0
      | JFloat _ _ t \<Rightarrow> t
      | JStr s \<Rightarrow> s \<noteq> []
      | JList xs \<Rightarrow> xs \<noteq> []
      | JObj d \<Rightarrow> d \<noteq> [])"

definition py_or :: "json \<Rightarrow> json \<Rightarrow> json" where
  "py_or a b = (if py_truthy a then a else b)"

subsection \<open>Strings: lower, strip, slices\<close>

text \<open>
  \<^verbatim>\<open>str.lower\<close> on code points below 256: A-Z and the capital letters
  \<^verbatim>\<open>U+00C0..U+00DE\<close> (without the multiplication sign \<^verbatim>\<open>U+00D7\<close>) move up by 32.
\<close>

definition lower_char :: "char \<Rightarrow> char" where
  "lower_char c =
     (let n = (of_char c :: nat) in
      if (65 \<le> n \<and> n \<le> 90) \<or> (192 \<le> n \<and> n \<le> 222 \<and> n \<noteq> 215)
      then char_of (n + 32) else c)"

definition lower :: "string \<Rightarrow> string" where
  "lower s = map lower_char s"

text \<open>\<^verbatim>\<open>x.lower()\<close>: only a string has the method.\<close>

definition py_lower :: "json \<Rightarrow> py_error + string" where
  "py_lower x = (case x of JStr s \<Rightarrow> Inr (lower s) | _ \<Rightarrow> Inl AttributeError)"

text \<open>
  \<^verbatim>\<open>str.isspace\<close> on one code point below 256: tab to carriage return, the
  separators \<^verbatim>\<open>0x1c..0x1f\<close>, space, \<^verbatim>\<open>0x85\<close> and \<^verbatim>\<open>0xa0\<close>.
\<close>

definition isspace :: "char \<Rightarrow> bool" where
  "isspace c =
     (let n = (of_char c :: nat) in
      (9 \<le> n \<and> n \<le> 13) \<or> (28 \<le> n \<and> n \<le> 32) \<or> n = 133 \<or> n = 160)"

definition strip :: "string \<Rightarrow> string" where
  "strip s = rev (dropWhile isspace (rev (dropWhile isspace s)))"

text \<open>\<^verbatim>\<open>x.strip()\<close>: only a string has the method.\<close>

definition py_strip :: "json \<Rightarrow> py_error + string" where
  "py_strip x = (case x of JStr s \<Rightarrow> Inr (strip s) | _ \<Rightarrow> Inl AttributeError)"

text \<open>The slice \<^verbatim>\<open>s[:n]\<close> for a bound \<open>n \<ge> 0\<close>.\<close>

definition slice_to :: "nat \<Rightarrow> string \<Rightarrow> string" where
  "slice_to n s = take n s"

subsection \<open>Severity table\<close>

text \<open>
  \<^verbatim>\<open>
  SEV_MAP = {
      "info": "low",
      "notice": "low",
      "warning": "medium",
      "error": "high",
      "critical": "critical"
  }
  \<close>
  The table is the same in both files, and both look it up with
  \<^verbatim>\<open>SEV_MAP.get(sev, "medium")\<close>.
\<close>

definition SEV_MAP :: "(string \<times> string) list" where
  "SEV_MAP =
     [(''info'', ''low''),
      (''notice'', ''low''),
      (''warning'', ''medium''),
      (''error'', ''high''),
      (''critical'', ''critical'')]"

definition sev_map_get :: "string \<Rightarrow> string" where
  "sev_map_get sev = (case map_of SEV_MAP sev of None \<Rightarrow> ''medium'' | Some v \<Rightarrow> v)"

subsection \<open>The coercions \<^verbatim>\<open>int(...)\<close> and \<^verbatim>\<open>str(...)\<close>\<close>

definition is_digit :: "char \<Rightarrow> bool" where
  "is_digit c = (let n = (of_char c :: nat) in 48 \<le> n \<and> n \<le> 57)"

definition digit_val :: "char \<Rightarrow> int" where
  "digit_val c = int (of_char c) - 48"

text \<open>
  The digit part of a decimal literal accepted by \<^verbatim>\<open>int\<close>: digits, with single
  underscores allowed between two digits.
\<close>

fun digits_ok :: "string \<Rightarrow> bool" where
  "digits_ok [] = False"
| "digits_ok [c] = is_digit c"
| "digits_ok (c # d # cs) =
     (is_digit c \<and> (if d = CHR ''_'' then digits_ok cs else digits_ok (d # cs)))"

definition digits_val :: "string \<Rightarrow> int" where
  "digits_val s = foldl (\<lambda>a c. 10 * a + digit_val c) 0 (filter (\<lambda>c. c \<noteq> CHR ''_'') s)"

text \<open>
  The whitespace \<^verbatim>\<open>int\<close> skips around a literal is narrower than that of
  \<^verbatim>\<open>str.strip\<close>: tab to carriage return and space, and above 127 the spaces
  \<^verbatim>\<open>0x85\<close> and \<^verbatim>\<open>0xa0\<close>; the separators \<^verbatim>\<open>0x1c..0x1f\<close> are not skipped,
  so \<^verbatim>\<open>int("\x1c5")\<close> raises.
\<close>

definition int_space :: "char \<Rightarrow> bool" where
  "int_space c =
     (let n = (of_char c :: nat) in (9 \<le> n \<and> n \<le> 13) \<or> n = 32 \<or> n = 133 \<or> n = 160)"

definition int_strip :: "string \<Rightarrow> string" where
  "int_strip s = rev (dropWhile int_space (rev (dropWhile int_space s)))"

text \<open>
  The default of \<^verbatim>\<open>sys.int_max_str_digits\<close>: a literal with more digits
  (underscores not counted, leading zeros counted) raises ValueError.
\<close>

definition int_max_str_digits :: nat where
  "int_max_str_digits = 4300"

definition digit_count :: "string \<Rightarrow> nat" where
  "digit_count s = length (filter is_digit s)"

text \<open>
  \<^verbatim>\<open>int(s)\<close> for a string: the whitespace around the literal is skipped, one
  sign is allowed, the rest must be a digit part of at most 4300 digits;
  anything else raises ValueError.
\<close>

definition int_of_str :: "string \<Rightarrow> py_error + int" where
  "int_of_str s =
     (case int_strip s of
        [] \<Rightarrow> Inl ValueError
      | c # cs \<Rightarrow>
          (let body = (if c = CHR ''-'' \<or> c = CHR ''+'' then cs else c # cs) in
           if digits_ok body \<and> digit_count body \<le> int_max_str_digits
           then Inr (if c = CHR ''-'' then - digits_val body else digits_val body)
           else Inl ValueError))"

text \<open>
  \<^verbatim>\<open>int(x)\<close>: an int is itself, a bool is 0 or 1, a float is truncated (or
  raises), a string is parsed; None, lists and dicts raise TypeError.
\<close>

definition py_int :: "json \<Rightarrow> py_error + int" where
  "py_int x =
     (case x of
        JInt n \<Rightarrow> Inr n
      | JBool b \<Rightarrow> Inr (if b then 1 else 0)
      | JFloat _ i _ \<Rightarrow> i
      | JStr s \<Rightarrow> int_of_str s
      | _ \<Rightarrow> Inl TypeError)"

definition digit_char :: "nat \<Rightarrow> char" where
  "digit_char n = char_of (48 + n)"

fun show_nat :: "nat \<Rightarrow> string" where
  "show_nat n =
     (if n < 10 then [digit_char n] else show_nat (n div 10) @ [digit_char (n mod 10)])"

declare show_nat.simps [simp del]

definition show_int :: "int \<Rightarrow> string" where
  "show_int n = (if n < 0 then CHR ''-'' # show_nat (nat (- n)) else show_nat (nat n))"

definition hex_digit :: "nat \<Rightarrow> char" where
  "hex_digit n = (if n < 10 then char_of (48 + n) else char_of (87 + n))"

text \<open>
  \<^verbatim>\<open>repr\<close> of a string, as used for the strings inside a list or dict: single
  quotes unless the string holds a single quote and no double quote; the quote
  and the backslash are escaped, tab, newline and carriage return are written
  \<^verbatim>\<open>\t \n \r\<close>, every other non-printable code point as \<^verbatim>\<open>\xhh\<close>.
\<close>

definition repr_quote :: "string \<Rightarrow> char" where
  "repr_quote s = (if CHR 0x27 \<in> set s \<and> CHR 0x22 \<notin> set s then CHR 0x22 else CHR 0x27)"

definition repr_char :: "char \<Rightarrow> char \<Rightarrow> string" where
  "repr_char q c =
     (let n = (of_char c :: nat); hex = [CHR 0x5C, CHR ''x'', hex_digit (n div 16), hex_digit (n mod 16)] in
      if c = q \<or> n = 92 then [CHR 0x5C, c]
      else if n = 9 then [CHR 0x5C, CHR ''t'']
      else if n = 10 then [CHR 0x5C, CHR ''n'']
      else if n = 13 then [CHR 0x5C, CHR ''r'']
      else if n < 32 \<or> n = 127 then hex
      else if n < 127 then [c]
      else if n \<le> 160 \<or> n = 173 then hex
      else [c])"

definition repr_str :: "string \<Rightarrow> string" where
  "repr_str s = (let q = repr_quote s in q # concat (map (repr_char q) s) @ [q])"

fun join_comma :: "string list \<Rightarrow> string" where
  "join_comma [] = []"
| "join_comma [x] = x"
| "join_comma (x # y # ys) = x @ '', '' @ join_comma (y # ys)"

fun py_repr :: "json \<Rightarrow> string" where
  "py_repr JNull = ''None''"
| "py_repr (JBool b) = (if b then ''True'' else ''False'')"
| "py_repr (JInt n) = show_int n"
| "py_repr (JFloat s i t) = s"
| "py_repr (JStr s) = repr_str s"
| "py_repr (JList xs) = ''['' @ join_comma (map py_repr xs) @ '']''"
| "py_repr (JObj d) =
     ''{'' @ join_comma (map (\<lambda>kv. repr_str (fst kv) @ '': '' @ py_repr (snd kv)) d) @ ''}''"

text \<open>\<^verbatim>\<open>str(x)\<close>: a string is itself, everything else is its \<^verbatim>\<open>repr\<close>.\<close>

definition py_str :: "json \<Rightarrow> string" where
  "py_str x = (case x of JStr s \<Rightarrow> s | _ \<Rightarrow> py_repr x)"

subsection \<open>The adapters of \<^verbatim>\<open>phalanx.py\<close>\<close>

text \<open>
  The normalized finding: the dict each adapter appends. Its key \<^verbatim>\<open>"file"\<close> is
  the field \<open>file_path\<close>.
\<close>

record finding =
  tool :: string
  title :: string
  file_path :: string
  line :: int
  severity :: string
  code :: string
  metadata :: "(string \<times> string) list"

text \<open>
  The body of the loop of \<^verbatim>\<open>normalize_psalm\<close>, for one issue:
  \<^verbatim>\<open>
  sev = issue.get("severity", "").lower()
  findings.append({
      "tool": "psalm",
      "title": str(issue.get("message", ""))[:500],
      "file": str(issue.get("file_name", ""))[:1000],
      "line": int(issue.get("line_from", 0)),
      "severity": SEV_MAP.get(sev, "medium"),
      "code": str(issue.get("snippet", "")).strip()[:1000],
      "metadata": {
          "type": str(issue.get("type", ""))[:100],
          "link": str(issue.get("link", ""))[:500]
      }
  })
  \<close>
  The first \<^verbatim>\<open>issue.get\<close> raises AttributeError when the issue is not a dict,
  \<^verbatim>\<open>.lower()\<close> when the severity is not a string, and \<^verbatim>\<open>int\<close> when the line
  cannot be coerced; \<^verbatim>\<open>str\<close>, \<^verbatim>\<open>strip\<close> and the slices cannot raise.
\<close>

definition psalm_issue :: "json \<Rightarrow> py_error + finding" where
  "psalm_issue issue =
     (case issue of
        JObj d \<Rightarrow>
          (case py_lower (dget d ''severity'' (JStr [])) of
             Inl e \<Rightarrow> Inl e
           | Inr sev \<Rightarrow>
               (case py_int (dget d ''line_from'' (JInt 0)) of
                  Inl e \<Rightarrow> Inl e
                | Inr n \<Rightarrow>
                    Inr \<lparr> tool = ''psalm'',
                          title = slice_to 500 (py_str (dget d ''message'' (JStr []))),
                          file_path = slice_to 1000 (py_str (dget d ''file_name'' (JStr []))),
                          line = n,
                          severity = sev_map_get sev,
                          code = slice_to 1000 (strip (py_str (dget d ''snippet'' (JStr [])))),
                          metadata =
                            [(''type'', slice_to 100 (py_str (dget d ''type'' (JStr [])))),
                             (''link'', slice_to 500 (py_str (dget d ''link'' (JStr []))))] \<rparr>))
      | _ \<Rightarrow> Inl AttributeError)"

text \<open>
  The body of the loop of \<^verbatim>\<open>normalize_parse\<close>:
  \<^verbatim>\<open>
  sev = issue.get("severity", "warning").lower()
  findings.append({
      "tool": "parse",
      "title": str(issue.get("title") or issue.get("message", ""))[:500],
      "file": str(issue.get("file", ""))[:1000],
      "line": int(issue.get("line", 0)),
      "severity": SEV_MAP.get(sev, "medium"),
      "code": str(issue.get("code", ""))[:1000],
      "metadata": {"rule": str(issue.get("rule", ""))[:100]}
  })
  \<close>
\<close>

definition parse_issue :: "json \<Rightarrow> py_error + finding" where
  "parse_issue issue =
     (case issue of
        JObj d \<Rightarrow>
          (case py_lower (dget d ''severity'' (JStr ''warning'')) of
             Inl e \<Rightarrow> Inl e
           | Inr sev \<Rightarrow>
               (case py_int (dget d ''line'' (JInt 0)) of
                  Inl e \<Rightarrow> Inl e
                | Inr n \<Rightarrow>
                    Inr \<lparr> tool = ''parse'',
                          title = slice_to 500
                            (py_str (py_or (dget d ''title'' JNull) (dget d ''message'' (JStr [])))),
                          file_path = slice_to 1000 (py_str (dget d ''file'' (JStr []))),
                          line = n,
                          severity = sev_map_get sev,
                          code = slice_to 1000 (py_str (dget d ''code'' (JStr []))),
                          metadata =
                            [(''rule'', slice_to 100 (py_str (dget d ''rule'' (JStr []))))] \<rparr>))
      | _ \<Rightarrow> Inl AttributeError)"

text \<open>
  The body of the loop of \<^verbatim>\<open>normalize_progpilot\<close>:
  \<^verbatim>\<open>
  sev = issue.get("severity", "medium").lower()
  findings.append({
      "tool": "progpilot",
      "title": str(issue.get("description") or issue.get("message", ""))[:500],
      "file": str(issue.get("file", ""))[:1000],
      "line": int(issue.get("line", 0)),
      "severity": SEV_MAP.get(sev, "medium"),
      "code": str(issue.get("code", ""))[:1000],
      "metadata": {"rule": str(issue.get("rule_name", ""))[:100]}
  })
  \<close>
\<close>

definition progpilot_issue :: "json \<Rightarrow> py_error + finding" where
  "progpilot_issue issue =
     (case issue of
        JObj d \<Rightarrow>
          (case py_lower (dget d ''severity'' (JStr ''medium'')) of
             Inl e \<Rightarrow> Inl e
           | Inr sev \<Rightarrow>
               (case py_int (dget d ''line'' (JInt 0)) of
                  Inl e \<Rightarrow> Inl e
                | Inr n \<Rightarrow>
                    Inr \<lparr> tool = ''progpilot'',
                          title = slice_to 500
                            (py_str (py_or (dget d ''description'' JNull) (dget d ''message'' (JStr [])))),
                          file_path = slice_to 1000 (py_str (dget d ''file'' (JStr []))),
                          line = n,
                          severity = sev_map_get sev,
                          code = slice_to 1000 (py_str (dget d ''code'' (JStr []))),
                          metadata =
                            [(''rule'', slice_to 100 (py_str (dget d ''rule_name'' (JStr []))))] \<rparr>))
      | _ \<Rightarrow> Inl AttributeError)"

text \<open>
  The loop inside \<^verbatim>\<open>try: ... except Exception\<close>: the \<^verbatim>\<open>try\<close> encloses the
  whole \<^verbatim>\<open>for\<close>, so the first issue that raises ends the loop, and the
  function returns the findings appended so far.
\<close>

fun try_loop :: "(json \<Rightarrow> py_error + 'f) \<Rightarrow> json list \<Rightarrow> 'f list \<Rightarrow> 'f list" where
  "try_loop body [] acc = acc"
| "try_loop body (issue # rest) acc =
     (case body issue of
        Inl e \<Rightarrow> acc
      | Inr f \<Rightarrow> try_loop body rest (acc @ [f]))"

text \<open>
  \<^verbatim>\<open>
  findings = []
  try:
      for issue in data.get(KEY, []):
          ...
  except Exception as e:
      logger.error(...)
  return findings
  \<close>
  \<^verbatim>\<open>data.get\<close> and the start of the iteration are inside the \<^verbatim>\<open>try\<close> too.
\<close>

definition try_adapter :: "string \<Rightarrow> (json \<Rightarrow> py_error + 'f) \<Rightarrow> json \<Rightarrow> 'f list" where
  "try_adapter key body data =
     (case py_get data key (JList []) of
        Inl e \<Rightarrow> []
      | Inr v \<Rightarrow>
          (case py_iter v of
             Inl e \<Rightarrow> []
           | Inr issues \<Rightarrow> try_loop body issues []))"

definition normalize_psalm :: "json \<Rightarrow> finding list" where
  "normalize_psalm data = try_adapter ''issues'' psalm_issue data"

definition normalize_parse :: "json \<Rightarrow> finding list" where
  "normalize_parse data = try_adapter ''findings'' parse_issue data"

definition normalize_progpilot :: "json \<Rightarrow> finding list" where
  "normalize_progpilot data = try_adapter ''results'' progpilot_issue data"

subsection \<open>The aggregation in \<^verbatim>\<open>main\<close> of \<^verbatim>\<open>phalanx.py\<close>\<close>

text \<open>
  A counting dict is the list of its items in insertion order.
  \<open>dict_get\<close> is \<^verbatim>\<open>m.get(k, 0)\<close>, \<open>dict_set\<close> is \<^verbatim>\<open>m[k] = v\<close>: an existing
  key keeps its place, a new key goes to the end.
\<close>

definition dict_get :: "(string \<times> nat) list \<Rightarrow> string \<Rightarrow> nat \<Rightarrow> nat" where
  "dict_get m k dflt = (case map_of m k of None \<Rightarrow> dflt | Some v \<Rightarrow> v)"

fun dict_set :: "(string \<times> nat) list \<Rightarrow> string \<Rightarrow> nat \<Rightarrow> (string \<times> nat) list" where
  "dict_set [] k v = [(k, v)]"
| "dict_set (p # ps) k v = (if fst p = k then (k, v) # ps else p # dict_set ps k v)"

record summary =
  total_findings :: nat
  by_tool :: "(string \<times> nat) list"
  by_severity :: "(string \<times> nat) list"
  scan_timestamp :: string
  phalanx_version :: string

record report =
  summary :: summary
  findings :: "finding list"

text \<open>
  One round of
  \<^verbatim>\<open>
  for finding in all_findings:
      tool = finding.get("tool", "unknown")
      severity = finding.get("severity", "medium")
      summary["by_tool"][tool] = summary["by_tool"].get(tool, 0) + 1
      summary["by_severity"][severity] = summary["by_severity"].get(severity, 0) + 1
  \<close>
  Every finding built by an adapter has both keys, so the two defaults of
  \<^verbatim>\<open>finding.get\<close> are never used.
\<close>

definition count_finding :: "summary \<Rightarrow> finding \<Rightarrow> summary" where
  "count_finding s f =
     s\<lparr> by_tool := dict_set (by_tool s) (tool f) (dict_get (by_tool s) (tool f) 0 + 1),
        by_severity :=
          dict_set (by_severity s) (severity f) (dict_get (by_severity s) (severity f) 0 + 1) \<rparr>"

text \<open>
  Lines 326 to 350 of \<^verbatim>\<open>main\<close>: concatenate, build the summary, count, and
  assemble the report. \<open>now\<close> is \<^verbatim>\<open>datetime.utcnow().isoformat() + "Z"\<close>.
\<close>

definition main_report :: "string \<Rightarrow> json \<Rightarrow> json \<Rightarrow> json \<Rightarrow> report" where
  "main_report now psalm_json parse_json prog_json =
     (let all_findings =
            normalize_psalm psalm_json @ normalize_parse parse_json @ normalize_progpilot prog_json;
          summary0 =
            \<lparr> total_findings = length all_findings,
              by_tool = [],
              by_severity = [(''low'', 0), (''medium'', 0), (''high'', 0), (''critical'', 0)],
              scan_timestamp = now,
              phalanx_version = ''0.1.0'' \<rparr>
      in \<lparr> summary = foldl count_finding summary0 all_findings, findings = all_findings \<rparr>)"


subsection \<open>The adapters and the aggregation of \<^verbatim>\<open>aegisphp.py\<close>\<close>

text \<open>
  The earlier variant stores the raw values: \<^verbatim>\<open>issue.get("message")\<close> is the
  value under the key, or None. Only the tool and the severity are strings.
\<close>

record aegis_finding =
  aegis_tool :: string
  aegis_title :: json
  aegis_file :: json
  aegis_line :: json
  aegis_severity :: string
  aegis_code :: json
  aegis_metadata :: "(string \<times> json) list"

text \<open>
  \<^verbatim>\<open>
  sev = issue.get("severity", "").lower()
  findings.append({
      "tool": "psalm",
      "title": issue.get("message"),
      "file": issue.get("file_name"),
      "line": issue.get("line_from"),
      "severity": SEV_MAP.get(sev, "medium"),
      "code": issue.get("snippet", "").strip(),
      "metadata": {"type": issue.get("type"), "link": issue.get("link")}
  })
  \<close>
\<close>

definition aegis_psalm_issue :: "json \<Rightarrow> py_error + aegis_finding" where
  "aegis_psalm_issue issue =
     (case issue of
        JObj d \<Rightarrow>
          (case py_lower (dget d ''severity'' (JStr [])) of
             Inl e \<Rightarrow> Inl e
           | Inr sev \<Rightarrow>
               (case py_strip (dget d ''snippet'' (JStr [])) of
                  Inl e \<Rightarrow> Inl e
                | Inr snippet \<Rightarrow>
                    Inr \<lparr> aegis_tool = ''psalm'',
                          aegis_title = dget d ''message'' JNull,
                          aegis_file = dget d ''file_name'' JNull,
                          aegis_line = dget d ''line_from'' JNull,
                          aegis_severity = sev_map_get sev,
                          aegis_code = JStr snippet,
                          aegis_metadata =
                            [(''type'', dget d ''type'' JNull), (''link'', dget d ''link'' JNull)] \<rparr>))
      | _ \<Rightarrow> Inl AttributeError)"

text \<open>
  \<^verbatim>\<open>
  sev = issue.get("severity", "warning").lower()
  findings.append({
      "tool": "parse",
      "title": issue.get("title") or issue.get("message"),
      "file": issue.get("file"),
      "line": issue.get("line"),
      "severity": SEV_MAP.get(sev, "medium"),
      "code": issue.get("code", ""),
      "metadata": {"rule": issue.get("rule")}
  })
  \<close>
\<close>

definition aegis_parse_issue :: "json \<Rightarrow> py_error + aegis_finding" where
  "aegis_parse_issue issue =
     (case issue of
        JObj d \<Rightarrow>
          (case py_lower (dget d ''severity'' (JStr ''warning'')) of
             Inl e \<Rightarrow> Inl e
           | Inr sev \<Rightarrow>
               Inr \<lparr> aegis_tool = ''parse'',
                     aegis_title = py_or (dget d ''title'' JNull) (dget d ''message'' JNull),
                     aegis_file = dget d ''file'' JNull,
                     aegis_line = dget d ''line'' JNull,
                     aegis_severity = sev_map_get sev,
                     aegis_code = dget d ''code'' (JStr []),
                     aegis_metadata = [(''rule'', dget d ''rule'' JNull)] \<rparr>)
      | _ \<Rightarrow> Inl AttributeError)"

text \<open>
  \<^verbatim>\<open>
  sev = issue.get("severity", "medium").lower()
  findings.append({
      "tool": "progpilot",
      "title": issue.get("description") or issue.get("message"),
      "file": issue.get("file"),
      "line": issue.get("line"),
      "severity": SEV_MAP.get(sev, "medium"),
      "code": issue.get("code", ""),
      "metadata": {"rule": issue.get("rule_name")}
  })
  \<close>
\<close>

definition aegis_progpilot_issue :: "json \<Rightarrow> py_error + aegis_finding" where
  "aegis_progpilot_issue issue =
     (case issue of
        JObj d \<Rightarrow>
          (case py_lower (dget d ''severity'' (JStr ''medium'')) of
             Inl e \<Rightarrow> Inl e
           | Inr sev \<Rightarrow>
               Inr \<lparr> aegis_tool = ''progpilot'',
                     aegis_title = py_or (dget d ''description'' JNull) (dget d ''message'' JNull),
                     aegis_file = dget d ''file'' JNull,
                     aegis_line = dget d ''line'' JNull,
                     aegis_severity = sev_map_get sev,
                     aegis_code = dget d ''code'' (JStr []),
                     aegis_metadata = [(''rule'', dget d ''rule_name'' JNull)] \<rparr>)
      | _ \<Rightarrow> Inl AttributeError)"

text \<open>The loop without a \<^verbatim>\<open>try\<close>: the first exception leaves the function.\<close>

fun raise_loop :: "(json \<Rightarrow> py_error + 'f) \<Rightarrow> json list \<Rightarrow> 'f list \<Rightarrow> py_error + 'f list" where
  "raise_loop body [] acc = Inr acc"
| "raise_loop body (issue # rest) acc =
     (case body issue of
        Inl e \<Rightarrow> Inl e
      | Inr f \<Rightarrow> raise_loop body rest (acc @ [f]))"

text \<open>
  \<^verbatim>\<open>
  findings = []
  for issue in data.get(KEY, []):
      ...
  return findings
  \<close>
\<close>

definition raise_adapter ::
  "string \<Rightarrow> (json \<Rightarrow> py_error + 'f) \<Rightarrow> json \<Rightarrow> py_error + 'f list" where
  "raise_adapter key body data =
     (case py_get data key (JList []) of
        Inl e \<Rightarrow> Inl e
      | Inr v \<Rightarrow>
          (case py_iter v of
             Inl e \<Rightarrow> Inl e
           | Inr issues \<Rightarrow> raise_loop body issues []))"

definition aegis_normalize_psalm :: "json \<Rightarrow> py_error + aegis_finding list" where
  "aegis_normalize_psalm data = raise_adapter ''issues'' aegis_psalm_issue data"

definition aegis_normalize_parse :: "json \<Rightarrow> py_error + aegis_finding list" where
  "aegis_normalize_parse data = raise_adapter ''findings'' aegis_parse_issue data"

definition aegis_normalize_progpilot :: "json \<Rightarrow> py_error + aegis_finding list" where
  "aegis_normalize_progpilot data = raise_adapter ''results'' aegis_progpilot_issue data"

record aegis_summary =
  aegis_total_findings :: nat
  aegis_by_tool :: "(string \<times> nat) list"

record aegis_report =
  aegis_summary :: aegis_summary
  aegis_findings :: "aegis_finding list"

text \<open>
  The summary of \<^verbatim>\<open>aegisphp.py\<close> is the dict
  \<^verbatim>\<open>{"total_findings": len(all_findings), "by_tool": {}}\<close>: it has these two keys
  and no other. \<open>aegis_summary_get\<close> is \<^verbatim>\<open>summary.get(key)\<close>.
\<close>

datatype summary_value = Count nat | Counts "(string \<times> nat) list"

definition aegis_summary_get :: "aegis_summary \<Rightarrow> string \<Rightarrow> summary_value option" where
  "aegis_summary_get s key =
     map_of [(''total_findings'', Count (aegis_total_findings s)),
             (''by_tool'', Counts (aegis_by_tool s))] key"

text \<open>\<^verbatim>\<open>m.setdefault(k, 0)\<close>: a missing key is added at the end with 0.\<close>

definition dict_setdefault :: "(string \<times> nat) list \<Rightarrow> string \<Rightarrow> nat \<Rightarrow> (string \<times> nat) list" where
  "dict_setdefault m k v = (case map_of m k of None \<Rightarrow> m @ [(k, v)] | Some _ \<Rightarrow> m)"

text \<open>
  One round of
  \<^verbatim>\<open>
  for f in all_findings:
      summary["by_tool"].setdefault(f["tool"], 0)
      summary["by_tool"][f["tool"]] += 1
  \<close>
  After \<^verbatim>\<open>setdefault\<close> the key is present, so the read in \<^verbatim>\<open>+=\<close> cannot raise.
\<close>

definition aegis_count_finding :: "(string \<times> nat) list \<Rightarrow> aegis_finding \<Rightarrow> (string \<times> nat) list" where
  "aegis_count_finding m f =
     (let m1 = dict_setdefault m (aegis_tool f) 0
      in dict_set m1 (aegis_tool f) (dict_get m1 (aegis_tool f) 0 + 1))"

text \<open>
  Lines 140 to 152 of \<^verbatim>\<open>main\<close> of \<^verbatim>\<open>aegisphp.py\<close>. An exception in an
  adapter ends the program, so no report exists then.
\<close>

definition aegis_main_report :: "json \<Rightarrow> json \<Rightarrow> json \<Rightarrow> py_error + aegis_report" where
  "aegis_main_report psalm_json parse_json prog_json =
     (case aegis_normalize_psalm psalm_json of
        Inl e \<Rightarrow> Inl e
      | Inr f1 \<Rightarrow>
          (case aegis_normalize_parse parse_json of
             Inl e \<Rightarrow> Inl e
           | Inr f2 \<Rightarrow>
               (case aegis_normalize_progpilot prog_json of
                  Inl e \<Rightarrow> Inl e
                | Inr f3 \<Rightarrow>
                    (let all_findings = f1 @ f2 @ f3 in
                     Inr \<lparr> aegis_summary =
                             \<lparr> aegis_total_findings = length all_findings,
                               aegis_by_tool = foldl aegis_count_finding [] all_findings \<rparr>,
                           aegis_findings = all_findings \<rparr>))))"

subsection \<open>Notions used to state the properties\<close>

text \<open>
  The issues an adapter's loop goes through for a payload: the elements that
  iterating \<^verbatim>\<open>data.get(key, [])\<close> yields, and none when that raises.
\<close>

definition raw_issues :: "string \<Rightarrow> json \<Rightarrow> json list" where
  "raw_issues key data =
     (case py_get data key (JList []) of
        Inl e \<Rightarrow> []
      | Inr v \<Rightarrow> (case py_iter v of Inl e \<Rightarrow> [] | Inr issues \<Rightarrow> issues))"

text \<open>
  The list under the top-level key, when the payload is a dict that has the key
  with a list as its value.
\<close>

definition top_level_list :: "string \<Rightarrow> json \<Rightarrow> json list option" where
  "top_level_list key data =
     (case data of
        JObj d \<Rightarrow> (case map_of d key of Some (JList xs) \<Rightarrow> Some xs | _ \<Rightarrow> None)
      | _ \<Rightarrow> None)"

text \<open>The results up to the first error, in order.\<close>

fun findings_before_first_error :: "(py_error + 'f) list \<Rightarrow> 'f list" where
  "findings_before_first_error [] = []"
| "findings_before_first_error (Inl e # rs) = []"
| "findings_before_first_error (Inr f # rs) = f # findings_before_first_error rs"

text \<open>
  The behaviour the specification describes for an issue that throws: that one
  issue is skipped and the loop goes on with the rest.
\<close>

fun spec_skip_failing :: "(json \<Rightarrow> py_error + 'f) \<Rightarrow> json list \<Rightarrow> 'f list" where
  "spec_skip_failing body [] = []"
| "spec_skip_failing body (issue # rest) =
     (case body issue of
        Inl e \<Rightarrow> spec_skip_failing body rest
      | Inr f \<Rightarrow> f # spec_skip_failing body rest)"

text \<open>
  The truncation law for a bound \<open>n\<close>: the output is a prefix of the input of
  length at most \<open>n\<close>; it has length exactly \<open>n\<close> when the input is longer
  than \<open>n\<close>, and is the input otherwise.
\<close>

definition truncation_law :: "nat \<Rightarrow> string \<Rightarrow> string \<Rightarrow> bool" where
  "truncation_law n input output =
     (prefix output input \<and> length output \<le> n \<and>
      (if n < length input then length output = n else output = input))"

text \<open>The number of findings a tool contributed.\<close>

definition count_tool :: "string \<Rightarrow> finding list \<Rightarrow> nat" where
  "count_tool t fs = length (filter (\<lambda>f. tool f = t) fs)"

definition aegis_count_tool :: "string \<Rightarrow> aegis_finding list \<Rightarrow> nat" where
  "aegis_count_tool t fs = length (filter (\<lambda>f. aegis_tool f = t) fs)"

text \<open>The sum of the values of a counting dict.\<close>

definition dict_sum :: "(string \<times> nat) list \<Rightarrow> nat" where
  "dict_sum m = sum_list (map snd m)"

definition dict_keys :: "(string \<times> nat) list \<Rightarrow> string list" where
  "dict_keys m = map fst m"

subsection \<open>Example payloads\<close>

text \<open>
  \<^verbatim>\<open>{"issues":[{"message":"SQL injection","file_name":"a.php","line_from":10,
              "severity":"error","snippet":"$x","type":"TaintedSql"}]}\<close>
\<close>

definition scenario_psalm :: json where
  "scenario_psalm =
     JObj [(''issues'', JList [JObj
       [(''message'', JStr ''SQL injection''),
        (''file_name'', JStr ''a.php''),
        (''line_from'', JInt 10),
        (''severity'', JStr ''error''),
        (''snippet'', JStr ''$x''),
        (''type'', JStr ''TaintedSql'')]])]"

text \<open>\<^verbatim>\<open>{"findings":[{"title":"Use of eval","file":"b.php","line":"7"}]}\<close>\<close>

definition scenario_parse :: json where
  "scenario_parse =
     JObj [(''findings'', JList [JObj
       [(''title'', JStr ''Use of eval''), (''file'', JStr ''b.php''), (''line'', JStr ''7'')]])]"

text \<open>\<^verbatim>\<open>{"results":[{"description":"xss","severity":"CRITICAL","line":3}, {}]}\<close>\<close>

definition scenario_progpilot :: json where
  "scenario_progpilot =
     JObj [(''results'', JList
       [JObj [(''description'', JStr ''xss''), (''severity'', JStr ''CRITICAL''), (''line'', JInt 3)],
        JObj []])]"

text \<open>\<^verbatim>\<open>{"issues":[{"message":"ok"},{"severity":5},{"message":"x"}]}\<close>\<close>

definition failing_psalm :: json where
  "failing_psalm =
     JObj [(''issues'', JList
       [JObj [(''message'', JStr ''ok'')],
        JObj [(''severity'', JInt 5)],
        JObj [(''message'', JStr ''x'')]])]"

text \<open>\<^verbatim>\<open>{"findings":[{"line":"abc"}]}\<close>\<close>

definition failing_parse :: json where
  "failing_parse = JObj [(''findings'', JList [JObj [(''line'', JStr ''abc'')]])]"

text \<open>\<^verbatim>\<open>{"results":[{}, 7]}\<close>\<close>

definition failing_progpilot :: json where
  "failing_progpilot = JObj [(''results'', JList [JObj [], JInt 7])]"

section \<open>Properties\<close>

subsection \<open>Adapter loops and counting dicts\<close>

lemma try_loop_eq: "try_loop body xs acc = acc @ findings_before_first_error (map body xs)"
  by (induction xs arbitrary: acc) (auto split: sum.splits)

lemma try_adapter_eq:
  "try_adapter key body data = findings_before_first_error (map body (raw_issues key data))"
  by (simp add: try_adapter_def raw_issues_def try_loop_eq split: sum.splits)

lemma raise_loop_Inr:
  "raise_loop body xs acc = Inr fs \<Longrightarrow> map Inr fs = map Inr acc @ map body xs"
  by (induction xs arbitrary: acc) (auto split: sum.splits)

lemma raise_adapter_Inr:
  "raise_adapter key body data = Inr fs \<Longrightarrow> map Inr fs = map body (raw_issues key data)"
  by (auto simp: raise_adapter_def raw_issues_def split: sum.splits dest: raise_loop_Inr)

lemma map_of_dict_set: "map_of (dict_set m k v) = (map_of m)(k \<mapsto> v)"
  by (induction m) (auto simp: fun_eq_iff)

lemma keys_dict_set: "fst ` set (dict_set m k v) = insert k (fst ` set m)"
  by (induction m) auto

lemma distinct_dict_set: "distinct (map fst m) \<Longrightarrow> distinct (map fst (dict_set m k v))"
  by (induction m) (auto simp: keys_dict_set)

lemma sum_dict_set:
  "dict_sum (dict_set m k (Suc (dict_get m k 0))) = Suc (dict_sum m)"
  by (induction m) (auto simp: dict_sum_def dict_get_def)

lemma dict_get_dict_set:
  "dict_get (dict_set m k v) k' d = (if k' = k then v else dict_get m k' d)"
  by (simp add: dict_get_def map_of_dict_set)

lemma values_dict_set: "snd ` set (dict_set m k v) \<subseteq> insert v (snd ` set m)"
  by (induction m) auto

lemma foldl_count_total:
  "total_findings (foldl count_finding s fs) = total_findings s"
  by (induction fs arbitrary: s) (auto simp: count_finding_def)

lemma foldl_count_by_tool_sum:
  "dict_sum (by_tool (foldl count_finding s fs)) = dict_sum (by_tool s) + length fs"
  by (induction fs arbitrary: s) (auto simp: count_finding_def sum_dict_set)

lemma foldl_count_by_severity_sum:
  "dict_sum (by_severity (foldl count_finding s fs)) = dict_sum (by_severity s) + length fs"
  by (induction fs arbitrary: s) (auto simp: count_finding_def sum_dict_set)

lemma foldl_count_by_tool_get:
  "dict_get (by_tool (foldl count_finding s fs)) t 0 = dict_get (by_tool s) t 0 + count_tool t fs"
  by (induction fs arbitrary: s) (auto simp: count_finding_def dict_get_dict_set count_tool_def)

lemma foldl_count_by_tool_keys:
  "fst ` set (by_tool (foldl count_finding s fs)) = fst ` set (by_tool s) \<union> tool ` set fs"
  by (induction fs arbitrary: s) (auto simp: count_finding_def keys_dict_set)

lemma foldl_count_by_tool_distinct:
  "distinct (map fst (by_tool s)) \<Longrightarrow> distinct (map fst (by_tool (foldl count_finding s fs)))"
  by (induction fs arbitrary: s) (auto simp: count_finding_def distinct_dict_set)

lemma foldl_count_by_severity_distinct:
  "distinct (map fst (by_severity s)) \<Longrightarrow> distinct (map fst (by_severity (foldl count_finding s fs)))"
  by (induction fs arbitrary: s) (auto simp: count_finding_def distinct_dict_set)

lemma foldl_count_by_tool_pos:
  "0 \<notin> snd ` set (by_tool s) \<Longrightarrow> 0 \<notin> snd ` set (by_tool (foldl count_finding s fs))"
proof (induction fs arbitrary: s)
  case Nil
  then show ?case by simp
next
  case (Cons f fs)
  have "snd ` set (by_tool (count_finding s f))
          \<subseteq> insert (dict_get (by_tool s) (tool f) 0 + 1) (snd ` set (by_tool s))"
    by (simp add: count_finding_def values_dict_set)
  with Cons.prems have "0 \<notin> snd ` set (by_tool (count_finding s f))" by auto
  then show ?case using Cons.IH by simp
qed


lemma dict_set_absent: "map_of m k = None \<Longrightarrow> dict_set m k v = m @ [(k, v)]"
  by (induction m) (auto split: if_splits)

lemma dict_set_appended:
  "map_of m k = None \<Longrightarrow> dict_set (m @ [(k, w)]) k v = m @ [(k, v)]"
  by (induction m) (auto split: if_splits)

lemma aegis_count_finding_eq:
  "aegis_count_finding m f = dict_set m (aegis_tool f) (Suc (dict_get m (aegis_tool f) 0))"
proof (cases "map_of m (aegis_tool f)")
  case None
  then show ?thesis
    by (simp add: aegis_count_finding_def dict_setdefault_def dict_set_appended dict_set_absent
        dict_get_def map_add_def)
next
  case (Some a)
  then show ?thesis
    by (simp add: aegis_count_finding_def dict_setdefault_def)
qed

lemma aegis_foldl_sum:
  "dict_sum (foldl aegis_count_finding m fs) = dict_sum m + length fs"
  by (induction fs arbitrary: m) (auto simp: aegis_count_finding_eq sum_dict_set)

lemma aegis_foldl_get:
  "dict_get (foldl aegis_count_finding m fs) t 0 = dict_get m t 0 + aegis_count_tool t fs"
  by (induction fs arbitrary: m)
     (auto simp: aegis_count_finding_eq dict_get_dict_set aegis_count_tool_def)

lemma aegis_foldl_keys:
  "fst ` set (foldl aegis_count_finding m fs) = fst ` set m \<union> aegis_tool ` set fs"
  by (induction fs arbitrary: m) (auto simp: aegis_count_finding_eq keys_dict_set)

lemma aegis_foldl_distinct:
  "distinct (map fst m) \<Longrightarrow> distinct (map fst (foldl aegis_count_finding m fs))"
  by (induction fs arbitrary: m) (auto simp: aegis_count_finding_eq distinct_dict_set)

lemma aegis_foldl_pos:
  "0 \<notin> snd ` set m \<Longrightarrow> 0 \<notin> snd ` set (foldl aegis_count_finding m fs)"
proof (induction fs arbitrary: m)
  case Nil
  then show ?case by simp
next
  case (Cons f fs)
  have "snd ` set (aegis_count_finding m f)
          \<subseteq> insert (Suc (dict_get m (aegis_tool f) 0)) (snd ` set m)"
    by (simp add: aegis_count_finding_eq values_dict_set)
  with Cons.prems have "0 \<notin> snd ` set (aegis_count_finding m f)" by auto
  then show ?case using Cons.IH by simp
qed

subsection \<open>Facts about the adapters\<close>

lemma before_first_error_mem:
  "f \<in> set (findings_before_first_error rs) \<Longrightarrow> Inr f \<in> set rs"
  by (induction rs rule: findings_before_first_error.induct) auto

lemma before_first_error_take:
  "map Inr (findings_before_first_error rs) = take (length (findings_before_first_error rs)) rs"
  by (induction rs rule: findings_before_first_error.induct) auto

lemma psalm_issue_tool: "psalm_issue x = Inr f \<Longrightarrow> tool f = ''psalm''"
  by (auto simp: psalm_issue_def split: json.splits sum.splits)

lemma parse_issue_tool: "parse_issue x = Inr f \<Longrightarrow> tool f = ''parse''"
  by (auto simp: parse_issue_def split: json.splits sum.splits)

lemma progpilot_issue_tool: "progpilot_issue x = Inr f \<Longrightarrow> tool f = ''progpilot''"
  by (auto simp: progpilot_issue_def split: json.splits sum.splits)

lemma normalize_psalm_eq:
  "normalize_psalm a = findings_before_first_error (map psalm_issue (raw_issues ''issues'' a))"
  by (simp add: normalize_psalm_def try_adapter_eq)

lemma normalize_parse_eq:
  "normalize_parse a = findings_before_first_error (map parse_issue (raw_issues ''findings'' a))"
  by (simp add: normalize_parse_def try_adapter_eq)

lemma normalize_progpilot_eq:
  "normalize_progpilot a =
     findings_before_first_error (map progpilot_issue (raw_issues ''results'' a))"
  by (simp add: normalize_progpilot_def try_adapter_eq)

lemma normalize_psalm_tool: "f \<in> set (normalize_psalm a) \<Longrightarrow> tool f = ''psalm''"
  by (auto simp: normalize_psalm_eq dest!: before_first_error_mem intro: psalm_issue_tool [OF sym])

lemma normalize_parse_tool: "f \<in> set (normalize_parse a) \<Longrightarrow> tool f = ''parse''"
  by (auto simp: normalize_parse_eq dest!: before_first_error_mem intro: parse_issue_tool [OF sym])

lemma normalize_progpilot_tool: "f \<in> set (normalize_progpilot a) \<Longrightarrow> tool f = ''progpilot''"
  by (auto simp: normalize_progpilot_eq dest!: before_first_error_mem intro: progpilot_issue_tool [OF sym])

lemma findings_main_report:
  "findings (main_report now a b c) =
     normalize_psalm a @ normalize_parse b @ normalize_progpilot c"
  by (simp add: main_report_def Let_def)

lemma summary_main_report:
  "summary (main_report now a b c) =
     foldl count_finding
       \<lparr> total_findings = length (findings (main_report now a b c)),
         by_tool = [],
         by_severity = [(''low'', 0), (''medium'', 0), (''high'', 0), (''critical'', 0)],
         scan_timestamp = now,
         phalanx_version = ''0.1.0'' \<rparr>
       (findings (main_report now a b c))"
  by (simp add: main_report_def Let_def)

lemma aegis_main_report_Inr:
  assumes "aegis_main_report a b c = Inr r"
  shows "\<exists>f1 f2 f3. aegis_normalize_psalm a = Inr f1 \<and> aegis_normalize_parse b = Inr f2 \<and>
           aegis_normalize_progpilot c = Inr f3 \<and> aegis_findings r = f1 @ f2 @ f3 \<and>
           aegis_total_findings (aegis_summary r) = length (aegis_findings r) \<and>
           aegis_by_tool (aegis_summary r) = foldl aegis_count_finding [] (aegis_findings r)"
  using assms by (auto simp: aegis_main_report_def Let_def split: sum.splits)

subsection \<open>The counts of the summary\<close>

text \<open>
  C1 (as the specification states it: every report has a \<^verbatim>\<open>by_severity\<close> whose
  values sum up to the number of findings). For the psalm payload
  \<^verbatim>\<open>{"issues":[{}]}\<close> and two empty payloads, \<^verbatim>\<open>aegisphp.py\<close> produces a report
  with one finding whose summary is \<^verbatim>\<open>{"total_findings": 1, "by_tool": {"psalm": 1}}\<close>:
  it has no \<^verbatim>\<open>by_severity\<close>, so the fourth quantity of the claim does not exist.
\<close>

theorem aegis_summary_without_by_severity_counterexample:
  "aegis_main_report (JObj [(''issues'', JList [JObj []])]) (JObj []) (JObj [])
     = Inr \<lparr> aegis_summary = \<lparr> aegis_total_findings = 1, aegis_by_tool = [(''psalm'', 1)] \<rparr>,
             aegis_findings =
               [\<lparr> aegis_tool = ''psalm'', aegis_title = JNull, aegis_file = JNull,
                   aegis_line = JNull, aegis_severity = ''medium'', aegis_code = JStr [],
                   aegis_metadata = [(''type'', JNull), (''link'', JNull)] \<rparr>] \<rparr>
   \<and> aegis_summary_get \<lparr> aegis_total_findings = 1, aegis_by_tool = [(''psalm'', 1)] \<rparr>
        ''by_severity'' = None"
  by code_simp

text \<open>
  C1, amended. For all payloads, the report of \<^verbatim>\<open>phalanx.py\<close> satisfies
  \<^verbatim>\<open>len(findings) == total_findings == sum(by_tool.values()) == sum(by_severity.values())\<close>,
  and both counting dicts have distinct keys. The summary of \<^verbatim>\<open>aegisphp.py\<close>
  has only \<^verbatim>\<open>total_findings\<close> and \<^verbatim>\<open>by_tool\<close> and no \<^verbatim>\<open>by_severity\<close>;
  whenever that variant produces a report, the length of its findings,
  \<^verbatim>\<open>total_findings\<close> and the sum of \<^verbatim>\<open>by_tool\<close> agree.
\<close>

theorem report_counts_agree:
  assumes "aegis_main_report a' b' c' = Inr r'"
  shows "length (findings (main_report now a b c))
           = total_findings (summary (main_report now a b c))
       \<and> total_findings (summary (main_report now a b c))
           = dict_sum (by_tool (summary (main_report now a b c)))
       \<and> dict_sum (by_tool (summary (main_report now a b c)))
           = dict_sum (by_severity (summary (main_report now a b c)))
       \<and> distinct (dict_keys (by_tool (summary (main_report now a b c))))
       \<and> distinct (dict_keys (by_severity (summary (main_report now a b c))))
       \<and> length (aegis_findings r') = aegis_total_findings (aegis_summary r')
       \<and> aegis_total_findings (aegis_summary r') = dict_sum (aegis_by_tool (aegis_summary r'))
       \<and> distinct (dict_keys (aegis_by_tool (aegis_summary r')))
       \<and> aegis_summary_get (aegis_summary r') ''total_findings''
           = Some (Count (length (aegis_findings r')))
       \<and> aegis_summary_get (aegis_summary r') ''by_tool''
           = Some (Counts (aegis_by_tool (aegis_summary r')))
       \<and> aegis_summary_get (aegis_summary r') ''by_severity'' = None"
proof -
  let ?r = "main_report now a b c"
  have total: "total_findings (summary ?r) = length (findings ?r)"
    by (simp add: summary_main_report [of now a b c] foldl_count_total)
  have tool: "dict_sum (by_tool (summary ?r)) = length (findings ?r)"
    by (subst summary_main_report, subst foldl_count_by_tool_sum) (simp add: dict_sum_def)
  have sev: "dict_sum (by_severity (summary ?r)) = length (findings ?r)"
    by (subst summary_main_report, subst foldl_count_by_severity_sum) (simp add: dict_sum_def)
  have d1: "distinct (dict_keys (by_tool (summary ?r)))"
    unfolding dict_keys_def
    by (subst summary_main_report) (rule foldl_count_by_tool_distinct, simp)
  have d2: "distinct (dict_keys (by_severity (summary ?r)))"
    unfolding dict_keys_def
    by (subst summary_main_report) (rule foldl_count_by_severity_distinct, simp)
  from aegis_main_report_Inr [OF assms]
  have at: "aegis_total_findings (aegis_summary r') = length (aegis_findings r')"
    and ab: "aegis_by_tool (aegis_summary r') = foldl aegis_count_finding [] (aegis_findings r')"
    by auto
  have as: "dict_sum (aegis_by_tool (aegis_summary r')) = length (aegis_findings r')"
    by (subst ab, subst aegis_foldl_sum) (simp add: dict_sum_def)
  have ad: "distinct (dict_keys (aegis_by_tool (aegis_summary r')))"
    by (simp add: ab dict_keys_def aegis_foldl_distinct)
  have g: "aegis_summary_get (aegis_summary r') ''total_findings''
             = Some (Count (length (aegis_findings r')))
         \<and> aegis_summary_get (aegis_summary r') ''by_tool''
             = Some (Counts (aegis_by_tool (aegis_summary r')))
         \<and> aegis_summary_get (aegis_summary r') ''by_severity'' = None"
    by (simp add: aegis_summary_get_def at)
  show ?thesis using total tool sev d1 d2 at as ad g by simp
qed

theorem report_counts_agree_witness:
  "aegis_main_report scenario_psalm scenario_parse scenario_progpilot
     = Inr (projr (aegis_main_report scenario_psalm scenario_parse scenario_progpilot))
   \<and> length (findings (main_report ''T'' scenario_psalm scenario_parse scenario_progpilot)) = 4
   \<and> total_findings (summary (main_report ''T'' scenario_psalm scenario_parse scenario_progpilot)) = 4
   \<and> dict_sum (by_tool (summary (main_report ''T'' scenario_psalm scenario_parse scenario_progpilot))) = 4
   \<and> dict_sum (by_severity (summary (main_report ''T'' scenario_psalm scenario_parse scenario_progpilot))) = 4
   \<and> length (aegis_findings (projr (aegis_main_report scenario_psalm scenario_parse scenario_progpilot))) = 4
   \<and> aegis_total_findings (aegis_summary (projr (aegis_main_report scenario_psalm scenario_parse scenario_progpilot))) = 4
   \<and> dict_sum (aegis_by_tool (aegis_summary (projr (aegis_main_report scenario_psalm scenario_parse scenario_progpilot)))) = 4
   \<and> aegis_summary_get (aegis_summary (projr (aegis_main_report scenario_psalm scenario_parse scenario_progpilot))) ''by_severity'' = None"
proof -
  have h: "aegis_main_report scenario_psalm scenario_parse scenario_progpilot
     = Inr (projr (aegis_main_report scenario_psalm scenario_parse scenario_progpilot))"
    by code_simp
  have n: "length (findings (main_report ''T'' scenario_psalm scenario_parse scenario_progpilot)) = 4"
    by code_simp
  have m: "length (aegis_findings (projr (aegis_main_report scenario_psalm scenario_parse scenario_progpilot))) = 4"
    by code_simp
  show ?thesis
    using h n m report_counts_agree [OF h, of "''T''" scenario_psalm scenario_parse scenario_progpilot]
    by simp
qed

subsection \<open>Severity normalization\<close>

lemma psalm_issue_severity:
  "map_of d ''severity'' = Some (JStr raw) \<Longrightarrow> psalm_issue (JObj d) = Inr f \<Longrightarrow>
   severity f = sev_map_get (lower raw)"
  by (auto simp: psalm_issue_def dget_def py_lower_def split: sum.splits)

lemma parse_issue_severity:
  "map_of d ''severity'' = Some (JStr raw) \<Longrightarrow> parse_issue (JObj d) = Inr f \<Longrightarrow>
   severity f = sev_map_get (lower raw)"
  by (auto simp: parse_issue_def dget_def py_lower_def split: sum.splits)

lemma progpilot_issue_severity:
  "map_of d ''severity'' = Some (JStr raw) \<Longrightarrow> progpilot_issue (JObj d) = Inr f \<Longrightarrow>
   severity f = sev_map_get (lower raw)"
  by (auto simp: progpilot_issue_def dget_def py_lower_def split: sum.splits)

lemma aegis_psalm_issue_severity:
  "map_of d ''severity'' = Some (JStr raw) \<Longrightarrow> aegis_psalm_issue (JObj d) = Inr f \<Longrightarrow>
   aegis_severity f = sev_map_get (lower raw)"
  by (auto simp: aegis_psalm_issue_def dget_def py_lower_def split: sum.splits)

lemma aegis_parse_issue_severity:
  "map_of d ''severity'' = Some (JStr raw) \<Longrightarrow> aegis_parse_issue (JObj d) = Inr f \<Longrightarrow>
   aegis_severity f = sev_map_get (lower raw)"
  by (auto simp: aegis_parse_issue_def dget_def py_lower_def split: sum.splits)

lemma aegis_progpilot_issue_severity:
  "map_of d ''severity'' = Some (JStr raw) \<Longrightarrow> aegis_progpilot_issue (JObj d) = Inr f \<Longrightarrow>
   aegis_severity f = sev_map_get (lower raw)"
  by (auto simp: aegis_progpilot_issue_def dget_def py_lower_def split: sum.splits)

lemma issue_fails_only_on_line:
  assumes "map_of d ''severity'' = Some (JStr raw)"
  shows "isl (psalm_issue (JObj d)) = isl (py_int (dget d ''line_from'' (JInt 0)))"
    and "isl (parse_issue (JObj d)) = isl (py_int (dget d ''line'' (JInt 0)))"
    and "isl (progpilot_issue (JObj d)) = isl (py_int (dget d ''line'' (JInt 0)))"
    and "isl (aegis_psalm_issue (JObj d)) = isl (py_strip (dget d ''snippet'' (JStr [])))"
    and "\<not> isl (aegis_parse_issue (JObj d))"
    and "\<not> isl (aegis_progpilot_issue (JObj d))"
  using assms
  by (auto simp: psalm_issue_def parse_issue_def progpilot_issue_def aegis_psalm_issue_def
      aegis_parse_issue_def aegis_progpilot_issue_def dget_def py_lower_def split: sum.splits)

text \<open>
  C2. Severity normalization of a raw severity string never fails:
  \<^verbatim>\<open>.lower()\<close> succeeds on every string, and the lower-cased string is mapped
  by the fixed table (info and notice to low, warning to medium, error to high,
  critical to critical); every other string, the empty one included, is mapped
  to medium. The result is always one of the four levels. This is the severity
  every adapter of both files stores: for an issue whose \<^verbatim>\<open>severity\<close> is the
  string \<open>raw\<close>, the finding's severity is the table's value for the
  lower-cased \<open>raw\<close>, and the severity never makes the issue fail (an issue
  with a string severity fails only where the line coercion of \<^verbatim>\<open>phalanx.py\<close>
  or the \<^verbatim>\<open>strip\<close> of the psalm adapter of \<^verbatim>\<open>aegisphp.py\<close> fails).
\<close>

theorem severity_normalization:
  assumes "map_of d ''severity'' = Some (JStr raw)"
  shows "py_lower (JStr raw) = Inr (lower raw)
   \<and> sev_map_get (lower raw) =
       (if lower raw = ''info'' then ''low''
        else if lower raw = ''notice'' then ''low''
        else if lower raw = ''warning'' then ''medium''
        else if lower raw = ''error'' then ''high''
        else if lower raw = ''critical'' then ''critical''
        else ''medium'')
   \<and> sev_map_get (lower []) = ''medium''
   \<and> sev_map_get (lower raw) \<in> {''low'', ''medium'', ''high'', ''critical''}
   \<and> (psalm_issue (JObj d) = Inr f1 \<longrightarrow> severity f1 = sev_map_get (lower raw))
   \<and> (parse_issue (JObj d) = Inr f2 \<longrightarrow> severity f2 = sev_map_get (lower raw))
   \<and> (progpilot_issue (JObj d) = Inr f3 \<longrightarrow> severity f3 = sev_map_get (lower raw))
   \<and> (aegis_psalm_issue (JObj d) = Inr g1 \<longrightarrow> aegis_severity g1 = sev_map_get (lower raw))
   \<and> (aegis_parse_issue (JObj d) = Inr g2 \<longrightarrow> aegis_severity g2 = sev_map_get (lower raw))
   \<and> (aegis_progpilot_issue (JObj d) = Inr g3 \<longrightarrow> aegis_severity g3 = sev_map_get (lower raw))
   \<and> isl (psalm_issue (JObj d)) = isl (py_int (dget d ''line_from'' (JInt 0)))
   \<and> isl (parse_issue (JObj d)) = isl (py_int (dget d ''line'' (JInt 0)))
   \<and> isl (progpilot_issue (JObj d)) = isl (py_int (dget d ''line'' (JInt 0)))
   \<and> isl (aegis_psalm_issue (JObj d)) = isl (py_strip (dget d ''snippet'' (JStr [])))
   \<and> \<not> isl (aegis_parse_issue (JObj d))
   \<and> \<not> isl (aegis_progpilot_issue (JObj d))"
proof -
  have t: "py_lower (JStr raw) = Inr (lower raw)
   \<and> sev_map_get (lower raw) =
       (if lower raw = ''info'' then ''low''
        else if lower raw = ''notice'' then ''low''
        else if lower raw = ''warning'' then ''medium''
        else if lower raw = ''error'' then ''high''
        else if lower raw = ''critical'' then ''critical''
        else ''medium'')
   \<and> sev_map_get (lower []) = ''medium''
   \<and> sev_map_get (lower raw) \<in> {''low'', ''medium'', ''high'', ''critical''}"
    by (simp add: py_lower_def sev_map_get_def SEV_MAP_def lower_def)
  have a: "(psalm_issue (JObj d) = Inr f1 \<longrightarrow> severity f1 = sev_map_get (lower raw))
   \<and> (parse_issue (JObj d) = Inr f2 \<longrightarrow> severity f2 = sev_map_get (lower raw))
   \<and> (progpilot_issue (JObj d) = Inr f3 \<longrightarrow> severity f3 = sev_map_get (lower raw))
   \<and> (aegis_psalm_issue (JObj d) = Inr g1 \<longrightarrow> aegis_severity g1 = sev_map_get (lower raw))
   \<and> (aegis_parse_issue (JObj d) = Inr g2 \<longrightarrow> aegis_severity g2 = sev_map_get (lower raw))
   \<and> (aegis_progpilot_issue (JObj d) = Inr g3 \<longrightarrow> aegis_severity g3 = sev_map_get (lower raw))"
    using psalm_issue_severity [OF assms, of f1] parse_issue_severity [OF assms, of f2]
      progpilot_issue_severity [OF assms, of f3] aegis_psalm_issue_severity [OF assms, of g1]
      aegis_parse_issue_severity [OF assms, of g2] aegis_progpilot_issue_severity [OF assms, of g3]
    by blast
  have i: "isl (psalm_issue (JObj d)) = isl (py_int (dget d ''line_from'' (JInt 0)))
   \<and> isl (parse_issue (JObj d)) = isl (py_int (dget d ''line'' (JInt 0)))
   \<and> isl (progpilot_issue (JObj d)) = isl (py_int (dget d ''line'' (JInt 0)))
   \<and> isl (aegis_psalm_issue (JObj d)) = isl (py_strip (dget d ''snippet'' (JStr [])))
   \<and> \<not> isl (aegis_parse_issue (JObj d))
   \<and> \<not> isl (aegis_progpilot_issue (JObj d))"
    using issue_fails_only_on_line [OF assms] by blast
  from t a i show ?thesis by - (elim conjE, intro conjI; assumption)
qed

theorem severity_normalization_witness:
  "map_of [(''severity'', JStr ''ErRoR''), (''line'', JInt 3)] ''severity'' = Some (JStr ''ErRoR'')
   \<and> psalm_issue (JObj [(''severity'', JStr ''ErRoR''), (''line'', JInt 3)])
       = Inr (projr (psalm_issue (JObj [(''severity'', JStr ''ErRoR''), (''line'', JInt 3)])))
   \<and> parse_issue (JObj [(''severity'', JStr ''ErRoR''), (''line'', JInt 3)])
       = Inr (projr (parse_issue (JObj [(''severity'', JStr ''ErRoR''), (''line'', JInt 3)])))
   \<and> progpilot_issue (JObj [(''severity'', JStr ''ErRoR''), (''line'', JInt 3)])
       = Inr (projr (progpilot_issue (JObj [(''severity'', JStr ''ErRoR''), (''line'', JInt 3)])))
   \<and> aegis_psalm_issue (JObj [(''severity'', JStr ''ErRoR''), (''line'', JInt 3)])
       = Inr (projr (aegis_psalm_issue (JObj [(''severity'', JStr ''ErRoR''), (''line'', JInt 3)])))
   \<and> aegis_parse_issue (JObj [(''severity'', JStr ''ErRoR''), (''line'', JInt 3)])
       = Inr (projr (aegis_parse_issue (JObj [(''severity'', JStr ''ErRoR''), (''line'', JInt 3)])))
   \<and> aegis_progpilot_issue (JObj [(''severity'', JStr ''ErRoR''), (''line'', JInt 3)])
       = Inr (projr (aegis_progpilot_issue (JObj [(''severity'', JStr ''ErRoR''), (''line'', JInt 3)])))
   \<and> py_lower (JStr ''ErRoR'') = Inr ''error''
   \<and> sev_map_get (lower ''ErRoR'') = ''high''
   \<and> severity (projr (psalm_issue (JObj [(''severity'', JStr ''ErRoR''), (''line'', JInt 3)]))) = ''high''
   \<and> severity (projr (parse_issue (JObj [(''severity'', JStr ''ErRoR''), (''line'', JInt 3)]))) = ''high''
   \<and> severity (projr (progpilot_issue (JObj [(''severity'', JStr ''ErRoR''), (''line'', JInt 3)]))) = ''high''
   \<and> aegis_severity (projr (aegis_psalm_issue (JObj [(''severity'', JStr ''ErRoR''), (''line'', JInt 3)]))) = ''high''
   \<and> aegis_severity (projr (aegis_parse_issue (JObj [(''severity'', JStr ''ErRoR''), (''line'', JInt 3)]))) = ''high''
   \<and> aegis_severity (projr (aegis_progpilot_issue (JObj [(''severity'', JStr ''ErRoR''), (''line'', JInt 3)]))) = ''high''"
proof -
  let ?d = "[(''severity'', JStr ''ErRoR''), (''line'', JInt 3)]"
  have h: "map_of ?d ''severity'' = Some (JStr ''ErRoR'')" by simp
  have e: "lower ''ErRoR'' = ''error''" by code_simp
  have 1: "psalm_issue (JObj ?d) = Inr (projr (psalm_issue (JObj ?d)))" by code_simp
  have 2: "parse_issue (JObj ?d) = Inr (projr (parse_issue (JObj ?d)))" by code_simp
  have 3: "progpilot_issue (JObj ?d) = Inr (projr (progpilot_issue (JObj ?d)))" by code_simp
  have 4: "aegis_psalm_issue (JObj ?d) = Inr (projr (aegis_psalm_issue (JObj ?d)))" by code_simp
  have 5: "aegis_parse_issue (JObj ?d) = Inr (projr (aegis_parse_issue (JObj ?d)))" by code_simp
  have 6: "aegis_progpilot_issue (JObj ?d) = Inr (projr (aegis_progpilot_issue (JObj ?d)))"
    by code_simp
  note t = severity_normalization [OF h,
        of "projr (psalm_issue (JObj ?d))" "projr (parse_issue (JObj ?d))"
           "projr (progpilot_issue (JObj ?d))" "projr (aegis_psalm_issue (JObj ?d))"
           "projr (aegis_parse_issue (JObj ?d))" "projr (aegis_progpilot_issue (JObj ?d))"]
  have hi: "sev_map_get (lower ''ErRoR'') = ''high''"
    using t by (simp add: e)
  have lo: "py_lower (JStr ''ErRoR'') = Inr ''error''"
    using t by (simp add: e)
  show ?thesis
    using h 1 2 3 4 5 6 lo hi t by (simp only: simp_thms)
qed

lemma aegis_psalm_issue_tool: "aegis_psalm_issue x = Inr f \<Longrightarrow> aegis_tool f = ''psalm''"
  by (auto simp: aegis_psalm_issue_def split: json.splits sum.splits)

lemma aegis_parse_issue_tool: "aegis_parse_issue x = Inr f \<Longrightarrow> aegis_tool f = ''parse''"
  by (auto simp: aegis_parse_issue_def split: json.splits sum.splits)

lemma aegis_progpilot_issue_tool:
  "aegis_progpilot_issue x = Inr f \<Longrightarrow> aegis_tool f = ''progpilot''"
  by (auto simp: aegis_progpilot_issue_def split: json.splits sum.splits)

lemma raise_adapter_mem:
  assumes "raise_adapter key body data = Inr fs" and "f \<in> set fs"
  shows "\<exists>x. body x = Inr f"
proof -
  have "set (map Inr fs) = set (map body (raw_issues key data))"
    using raise_adapter_Inr [OF assms(1)] by (simp only:)
  with assms(2) have "Inr f \<in> set (map body (raw_issues key data))" by auto
  then show ?thesis by auto
qed

lemma aegis_normalize_psalm_tool:
  "aegis_normalize_psalm a = Inr fs \<Longrightarrow> f \<in> set fs \<Longrightarrow> aegis_tool f = ''psalm''"
  unfolding aegis_normalize_psalm_def
  by (drule (1) raise_adapter_mem) (auto dest: aegis_psalm_issue_tool)

lemma aegis_normalize_parse_tool:
  "aegis_normalize_parse a = Inr fs \<Longrightarrow> f \<in> set fs \<Longrightarrow> aegis_tool f = ''parse''"
  unfolding aegis_normalize_parse_def
  by (drule (1) raise_adapter_mem) (auto dest: aegis_parse_issue_tool)

lemma aegis_normalize_progpilot_tool:
  "aegis_normalize_progpilot a = Inr fs \<Longrightarrow> f \<in> set fs \<Longrightarrow> aegis_tool f = ''progpilot''"
  unfolding aegis_normalize_progpilot_def
  by (drule (1) raise_adapter_mem) (auto dest: aegis_progpilot_issue_tool)

lemma counting_dict_lookup:
  "0 \<notin> snd ` set m \<Longrightarrow>
   map_of m t = (if dict_get m t 0 = 0 then None else Some (dict_get m t 0))"
  by (cases "map_of m t") (auto simp: dict_get_def dest!: map_of_SomeD intro: rev_image_eqI)

lemma by_tool_lookup:
  "map_of (by_tool (summary (main_report now a b c))) t =
     (if count_tool t (findings (main_report now a b c)) = 0 then None
      else Some (count_tool t (findings (main_report now a b c))))"
proof -
  let ?r = "main_report now a b c"
  have pos: "0 \<notin> snd ` set (by_tool (summary ?r))"
    by (subst summary_main_report) (rule foldl_count_by_tool_pos, simp)
  have get: "dict_get (by_tool (summary ?r)) t 0 = count_tool t (findings ?r)"
    by (subst summary_main_report, subst foldl_count_by_tool_get) (simp add: dict_get_def)
  show ?thesis using counting_dict_lookup [OF pos, of t] by (simp add: get)
qed

lemma aegis_by_tool_lookup:
  assumes "aegis_main_report a b c = Inr r"
  shows "map_of (aegis_by_tool (aegis_summary r)) t =
     (if aegis_count_tool t (aegis_findings r) = 0 then None
      else Some (aegis_count_tool t (aegis_findings r)))"
proof -
  from aegis_main_report_Inr [OF assms]
  have ab: "aegis_by_tool (aegis_summary r) = foldl aegis_count_finding [] (aegis_findings r)"
    by auto
  have pos: "0 \<notin> snd ` set (aegis_by_tool (aegis_summary r))"
    by (subst ab) (rule aegis_foldl_pos, simp)
  have get: "dict_get (aegis_by_tool (aegis_summary r)) t 0 = aegis_count_tool t (aegis_findings r)"
    by (subst ab, subst aegis_foldl_get) (simp add: dict_get_def)
  show ?thesis using counting_dict_lookup [OF pos, of t] by (simp add: get)
qed

lemma count_tool_blocks:
  "count_tool ''psalm'' (findings (main_report now a b c)) = length (normalize_psalm a)"
  "count_tool ''parse'' (findings (main_report now a b c)) = length (normalize_parse b)"
  "count_tool ''progpilot'' (findings (main_report now a b c)) = length (normalize_progpilot c)"
proof -
  have ps: "filter (\<lambda>f. tool f = t) (normalize_psalm a) = (if t = ''psalm'' then normalize_psalm a else [])" for t
    by (auto simp: filter_id_conv filter_empty_conv dest: normalize_psalm_tool)
  have pa: "filter (\<lambda>f. tool f = t) (normalize_parse b) = (if t = ''parse'' then normalize_parse b else [])" for t
    by (auto simp: filter_id_conv filter_empty_conv dest: normalize_parse_tool)
  have pr: "filter (\<lambda>f. tool f = t) (normalize_progpilot c) = (if t = ''progpilot'' then normalize_progpilot c else [])" for t
    by (auto simp: filter_id_conv filter_empty_conv dest: normalize_progpilot_tool)
  show "count_tool ''psalm'' (findings (main_report now a b c)) = length (normalize_psalm a)"
    by (simp add: count_tool_def findings_main_report ps pa pr)
  show "count_tool ''parse'' (findings (main_report now a b c)) = length (normalize_parse b)"
    by (simp add: count_tool_def findings_main_report ps pa pr)
  show "count_tool ''progpilot'' (findings (main_report now a b c)) = length (normalize_progpilot c)"
    by (simp add: count_tool_def findings_main_report ps pa pr)
qed

lemma by_tool_keys_subset:
  "set (dict_keys (by_tool (summary (main_report now a b c)))) \<subseteq> {''psalm'', ''parse'', ''progpilot''}"
proof -
  have "fst ` set (by_tool (summary (main_report now a b c))) = tool ` set (findings (main_report now a b c))"
    by (subst summary_main_report, subst foldl_count_by_tool_keys) simp
  then show ?thesis
    by (auto simp: dict_keys_def findings_main_report
        dest: normalize_psalm_tool normalize_parse_tool normalize_progpilot_tool)
qed


lemma key_in_counting_dict:
  "(k \<in> set (dict_keys m)) = (map_of m k \<noteq> None)"
  by (simp add: dict_keys_def map_of_eq_None_iff)

lemma aegis_count_tool_blocks:
  assumes "aegis_main_report a b c = Inr r"
  shows "aegis_count_tool ''psalm'' (aegis_findings r) = length (projr (aegis_normalize_psalm a))"
    and "aegis_count_tool ''parse'' (aegis_findings r) = length (projr (aegis_normalize_parse b))"
    and "aegis_count_tool ''progpilot'' (aegis_findings r)
           = length (projr (aegis_normalize_progpilot c))"
    and "aegis_tool ` set (aegis_findings r) \<subseteq> {''psalm'', ''parse'', ''progpilot''}"
proof -
  from aegis_main_report_Inr [OF assms] obtain f1 f2 f3 where
    n1: "aegis_normalize_psalm a = Inr f1" and n2: "aegis_normalize_parse b = Inr f2" and
    n3: "aegis_normalize_progpilot c = Inr f3" and fs: "aegis_findings r = f1 @ f2 @ f3"
    by blast
  have ps: "filter (\<lambda>f. aegis_tool f = t) f1 = (if t = ''psalm'' then f1 else [])" for t
    by (auto simp: filter_id_conv filter_empty_conv dest: aegis_normalize_psalm_tool [OF n1])
  have pa: "filter (\<lambda>f. aegis_tool f = t) f2 = (if t = ''parse'' then f2 else [])" for t
    by (auto simp: filter_id_conv filter_empty_conv dest: aegis_normalize_parse_tool [OF n2])
  have pr: "filter (\<lambda>f. aegis_tool f = t) f3 = (if t = ''progpilot'' then f3 else [])" for t
    by (auto simp: filter_id_conv filter_empty_conv dest: aegis_normalize_progpilot_tool [OF n3])
  show "aegis_count_tool ''psalm'' (aegis_findings r) = length (projr (aegis_normalize_psalm a))"
    by (simp add: aegis_count_tool_def fs n1 ps pa pr)
  show "aegis_count_tool ''parse'' (aegis_findings r) = length (projr (aegis_normalize_parse b))"
    by (simp add: aegis_count_tool_def fs n2 ps pa pr)
  show "aegis_count_tool ''progpilot'' (aegis_findings r)
          = length (projr (aegis_normalize_progpilot c))"
    by (simp add: aegis_count_tool_def fs n3 ps pa pr)
  show "aegis_tool ` set (aegis_findings r) \<subseteq> {''psalm'', ''parse'', ''progpilot''}"
    by (auto simp: fs dest: aegis_normalize_psalm_tool [OF n1] aegis_normalize_parse_tool [OF n2]
        aegis_normalize_progpilot_tool [OF n3])
qed

subsection \<open>Keys of \<^verbatim>\<open>by_tool\<close>\<close>

text \<open>
  C10. \<^verbatim>\<open>by_tool\<close> has a key for exactly the tools that produced at least one
  finding: looking a tool up gives its number of findings when that is positive
  and nothing when it is zero, so no key is ever stored with a zero count. The
  key of each of the three tools is present exactly when its adapter returned a
  non-empty list, and no other key occurs. The same holds for \<^verbatim>\<open>by_tool\<close> of
  \<^verbatim>\<open>aegisphp.py\<close> whenever that variant produces a report.
\<close>

theorem by_tool_keys_are_contributing_tools:
  assumes "aegis_main_report a' b' c' = Inr r'"
  shows "map_of (by_tool (summary (main_report now a b c))) t =
           (if count_tool t (findings (main_report now a b c)) = 0 then None
            else Some (count_tool t (findings (main_report now a b c))))
       \<and> (''psalm'' \<in> set (dict_keys (by_tool (summary (main_report now a b c)))))
           = (normalize_psalm a \<noteq> [])
       \<and> (''parse'' \<in> set (dict_keys (by_tool (summary (main_report now a b c)))))
           = (normalize_parse b \<noteq> [])
       \<and> (''progpilot'' \<in> set (dict_keys (by_tool (summary (main_report now a b c)))))
           = (normalize_progpilot c \<noteq> [])
       \<and> set (dict_keys (by_tool (summary (main_report now a b c))))
           \<subseteq> {''psalm'', ''parse'', ''progpilot''}
       \<and> 0 \<notin> snd ` set (by_tool (summary (main_report now a b c)))
       \<and> map_of (aegis_by_tool (aegis_summary r')) t =
           (if aegis_count_tool t (aegis_findings r') = 0 then None
            else Some (aegis_count_tool t (aegis_findings r')))
       \<and> (''psalm'' \<in> set (dict_keys (aegis_by_tool (aegis_summary r'))))
           = (aegis_normalize_psalm a' \<noteq> Inr [])
       \<and> (''parse'' \<in> set (dict_keys (aegis_by_tool (aegis_summary r'))))
           = (aegis_normalize_parse b' \<noteq> Inr [])
       \<and> (''progpilot'' \<in> set (dict_keys (aegis_by_tool (aegis_summary r'))))
           = (aegis_normalize_progpilot c' \<noteq> Inr [])"
proof -
  let ?m = "by_tool (summary (main_report now a b c))"
  let ?am = "aegis_by_tool (aegis_summary r')"
  have pos: "0 \<notin> snd ` set ?m"
    by (subst summary_main_report) (rule foldl_count_by_tool_pos, simp)
  from aegis_main_report_Inr [OF assms] obtain f1 f2 f3 where
    n: "aegis_normalize_psalm a' = Inr f1" "aegis_normalize_parse b' = Inr f2"
       "aegis_normalize_progpilot c' = Inr f3"
    by blast
  have k1: "(''psalm'' \<in> set (dict_keys ?m)) = (normalize_psalm a \<noteq> [])"
    by (simp add: key_in_counting_dict by_tool_lookup count_tool_blocks)
  have k2: "(''parse'' \<in> set (dict_keys ?m)) = (normalize_parse b \<noteq> [])"
    by (simp add: key_in_counting_dict by_tool_lookup count_tool_blocks)
  have k3: "(''progpilot'' \<in> set (dict_keys ?m)) = (normalize_progpilot c \<noteq> [])"
    by (simp add: key_in_counting_dict by_tool_lookup count_tool_blocks)
  have a1: "(''psalm'' \<in> set (dict_keys ?am)) = (aegis_normalize_psalm a' \<noteq> Inr [])"
    by (simp add: key_in_counting_dict aegis_by_tool_lookup [OF assms]
        aegis_count_tool_blocks [OF assms] n)
  have a2: "(''parse'' \<in> set (dict_keys ?am)) = (aegis_normalize_parse b' \<noteq> Inr [])"
    by (simp add: key_in_counting_dict aegis_by_tool_lookup [OF assms]
        aegis_count_tool_blocks [OF assms] n)
  have a3: "(''progpilot'' \<in> set (dict_keys ?am)) = (aegis_normalize_progpilot c' \<noteq> Inr [])"
    by (simp add: key_in_counting_dict aegis_by_tool_lookup [OF assms]
        aegis_count_tool_blocks [OF assms] n)
  show ?thesis
    using by_tool_lookup [of now a b c t] k1 k2 k3 by_tool_keys_subset [of now a b c] pos
      aegis_by_tool_lookup [OF assms, of t] a1 a2 a3
    by (simp only: simp_thms)
qed

theorem by_tool_keys_are_contributing_tools_witness:
  "aegis_main_report scenario_psalm (JObj []) scenario_progpilot
     = Inr (projr (aegis_main_report scenario_psalm (JObj []) scenario_progpilot))
   \<and> dict_keys (by_tool (summary (main_report ''T'' scenario_psalm (JObj []) scenario_progpilot)))
       = [''psalm'', ''progpilot'']
   \<and> normalize_psalm scenario_psalm \<noteq> []
   \<and> normalize_parse (JObj []) = []
   \<and> normalize_progpilot scenario_progpilot \<noteq> []
   \<and> map_of (by_tool (summary (main_report ''T'' scenario_psalm (JObj []) scenario_progpilot)))
        ''parse'' = None
   \<and> dict_keys (aegis_by_tool (aegis_summary
        (projr (aegis_main_report scenario_psalm (JObj []) scenario_progpilot))))
       = [''psalm'', ''progpilot'']"
proof -
  have h: "aegis_main_report scenario_psalm (JObj []) scenario_progpilot
     = Inr (projr (aegis_main_report scenario_psalm (JObj []) scenario_progpilot))"
    by code_simp
  have k: "dict_keys (by_tool (summary (main_report ''T'' scenario_psalm (JObj []) scenario_progpilot)))
       = [''psalm'', ''progpilot'']"
    by code_simp
  have ak: "dict_keys (aegis_by_tool (aegis_summary
        (projr (aegis_main_report scenario_psalm (JObj []) scenario_progpilot))))
       = [''psalm'', ''progpilot'']"
    by code_simp
  have c: "count_tool ''parse'' (findings (main_report ''T'' scenario_psalm (JObj []) scenario_progpilot)) = 0"
    by code_simp
  show ?thesis
    using h ak c
      by_tool_keys_are_contributing_tools
        [OF h, of "''T''" scenario_psalm "JObj []" scenario_progpilot "''parse''"]
    by (simp add: k)
qed

subsection \<open>Order of the findings\<close>

lemma raw_issues_list: "top_level_list key data = Some xs \<Longrightarrow> raw_issues key data = xs"
  by (auto simp: top_level_list_def raw_issues_def py_get_def py_iter_def
      split: json.splits option.splits)

lemma aegis_findings_items:
  assumes "aegis_main_report a b c = Inr r"
  shows "map Inr (aegis_findings r) =
           map aegis_psalm_issue (raw_issues ''issues'' a)
         @ map aegis_parse_issue (raw_issues ''findings'' b)
         @ map aegis_progpilot_issue (raw_issues ''results'' c)"
proof -
  from aegis_main_report_Inr [OF assms] obtain f1 f2 f3 where
    n1: "aegis_normalize_psalm a = Inr f1" and n2: "aegis_normalize_parse b = Inr f2" and
    n3: "aegis_normalize_progpilot c = Inr f3" and fs: "aegis_findings r = f1 @ f2 @ f3"
    by blast
  have "map Inr f1 = map aegis_psalm_issue (raw_issues ''issues'' a)"
    using n1 unfolding aegis_normalize_psalm_def by (rule raise_adapter_Inr)
  moreover have "map Inr f2 = map aegis_parse_issue (raw_issues ''findings'' b)"
    using n2 unfolding aegis_normalize_parse_def by (rule raise_adapter_Inr)
  moreover have "map Inr f3 = map aegis_progpilot_issue (raw_issues ''results'' c)"
    using n3 unfolding aegis_normalize_progpilot_def by (rule raise_adapter_Inr)
  ultimately show ?thesis by (simp add: fs)
qed

text \<open>
  C7. The findings of the report are the psalm block, then the parse block,
  then the progpilot block, whatever the sizes of the blocks. Inside a block the
  findings follow the raw list: the finding at position \<open>i\<close> of a block is the
  result of the issue at position \<open>i\<close> of that tool's raw list (which is the
  list under the tool's key when the payload has one), and every finding of a
  block carries the tool's tag. In \<^verbatim>\<open>aegisphp.py\<close>, whenever a report is produced,
  its findings are, item by item, the results of all psalm issues, then of all
  parse issues, then of all progpilot issues.
\<close>

theorem findings_order:
  assumes "aegis_main_report a' b' c' = Inr r'"
    and "top_level_list ''issues'' a = Some xs"
    and "top_level_list ''findings'' b = Some ys"
    and "top_level_list ''results'' c = Some zs"
  shows "findings (main_report now p q r)
           = normalize_psalm p @ normalize_parse q @ normalize_progpilot r
       \<and> map Inr (normalize_psalm p)
           = take (length (normalize_psalm p)) (map psalm_issue (raw_issues ''issues'' p))
       \<and> map Inr (normalize_parse q)
           = take (length (normalize_parse q)) (map parse_issue (raw_issues ''findings'' q))
       \<and> map Inr (normalize_progpilot r)
           = take (length (normalize_progpilot r)) (map progpilot_issue (raw_issues ''results'' r))
       \<and> map Inr (normalize_psalm a) = take (length (normalize_psalm a)) (map psalm_issue xs)
       \<and> map Inr (normalize_parse b) = take (length (normalize_parse b)) (map parse_issue ys)
       \<and> map Inr (normalize_progpilot c)
           = take (length (normalize_progpilot c)) (map progpilot_issue zs)
       \<and> set (map tool (normalize_psalm p)) \<subseteq> {''psalm''}
       \<and> set (map tool (normalize_parse q)) \<subseteq> {''parse''}
       \<and> set (map tool (normalize_progpilot r)) \<subseteq> {''progpilot''}
       \<and> map Inr (aegis_findings r')
           = map aegis_psalm_issue (raw_issues ''issues'' a')
           @ map aegis_parse_issue (raw_issues ''findings'' b')
           @ map aegis_progpilot_issue (raw_issues ''results'' c')"
proof -
  have p: "map Inr (normalize_psalm u)
           = take (length (normalize_psalm u)) (map psalm_issue (raw_issues ''issues'' u))" for u
    unfolding normalize_psalm_eq by (rule before_first_error_take)
  have q: "map Inr (normalize_parse u)
           = take (length (normalize_parse u)) (map parse_issue (raw_issues ''findings'' u))" for u
    unfolding normalize_parse_eq by (rule before_first_error_take)
  have r: "map Inr (normalize_progpilot u)
           = take (length (normalize_progpilot u)) (map progpilot_issue (raw_issues ''results'' u))" for u
    unfolding normalize_progpilot_eq by (rule before_first_error_take)
  have t1: "set (map tool (normalize_psalm p)) \<subseteq> {''psalm''}"
    by (auto dest: normalize_psalm_tool)
  have t2: "set (map tool (normalize_parse q)) \<subseteq> {''parse''}"
    by (auto dest: normalize_parse_tool)
  have t3: "set (map tool (normalize_progpilot r)) \<subseteq> {''progpilot''}"
    by (auto dest: normalize_progpilot_tool)
  show ?thesis
    using p [of p] q [of q] r [of r] p [of a] q [of b] r [of c] t1 t2 t3
      raw_issues_list [OF assms(2)] raw_issues_list [OF assms(3)] raw_issues_list [OF assms(4)]
      aegis_findings_items [OF assms(1)]
      findings_main_report [of now p q r]
    by (simp only: simp_thms)
qed


theorem findings_order_witness:
  "aegis_main_report scenario_psalm scenario_parse scenario_progpilot
     = Inr (projr (aegis_main_report scenario_psalm scenario_parse scenario_progpilot))
   \<and> top_level_list ''issues'' scenario_psalm = Some (raw_issues ''issues'' scenario_psalm)
   \<and> top_level_list ''findings'' scenario_parse = Some (raw_issues ''findings'' scenario_parse)
   \<and> top_level_list ''results'' scenario_progpilot
       = Some (raw_issues ''results'' scenario_progpilot)
   \<and> findings (main_report ''T'' scenario_psalm scenario_parse scenario_progpilot)
       = normalize_psalm scenario_psalm @ normalize_parse scenario_parse
         @ normalize_progpilot scenario_progpilot
   \<and> map tool (findings (main_report ''T'' scenario_psalm scenario_parse scenario_progpilot))
       = [''psalm'', ''parse'', ''progpilot'', ''progpilot'']
   \<and> map Inr (normalize_progpilot scenario_progpilot)
       = map progpilot_issue (raw_issues ''results'' scenario_progpilot)
   \<and> map aegis_tool (aegis_findings
        (projr (aegis_main_report scenario_psalm scenario_parse scenario_progpilot)))
       = [''psalm'', ''parse'', ''progpilot'', ''progpilot'']"
proof -
  have h: "aegis_main_report scenario_psalm scenario_parse scenario_progpilot
     = Inr (projr (aegis_main_report scenario_psalm scenario_parse scenario_progpilot))"
    by code_simp
  have l1: "top_level_list ''issues'' scenario_psalm = Some (raw_issues ''issues'' scenario_psalm)"
    by code_simp
  have l2: "top_level_list ''findings'' scenario_parse = Some (raw_issues ''findings'' scenario_parse)"
    by code_simp
  have l3: "top_level_list ''results'' scenario_progpilot
       = Some (raw_issues ''results'' scenario_progpilot)"
    by code_simp
  have n: "length (normalize_progpilot scenario_progpilot) = 2"
      "length (raw_issues ''results'' scenario_progpilot) = 2"
    by code_simp+
  have t: "map tool (normalize_psalm scenario_psalm @ normalize_parse scenario_parse
         @ normalize_progpilot scenario_progpilot) = [''psalm'', ''parse'', ''progpilot'', ''progpilot'']"
    by code_simp
  have at: "map aegis_tool (aegis_findings
        (projr (aegis_main_report scenario_psalm scenario_parse scenario_progpilot)))
       = [''psalm'', ''parse'', ''progpilot'', ''progpilot'']"
    by code_simp
  note fo = findings_order [OF h l1 l2 l3, of "''T''" scenario_psalm scenario_parse scenario_progpilot]
  have f: "findings (main_report ''T'' scenario_psalm scenario_parse scenario_progpilot)
       = normalize_psalm scenario_psalm @ normalize_parse scenario_parse
         @ normalize_progpilot scenario_progpilot"
    using fo by (simp only:)
  have b: "map Inr (normalize_progpilot scenario_progpilot)
       = map progpilot_issue (raw_issues ''results'' scenario_progpilot)"
    using fo n by simp
  show ?thesis using h l1 l2 l3 f b at t by (simp only: simp_thms)
qed

subsection \<open>Default severities\<close>

lemma lower_defaults: "lower [] = []" "lower ''warning'' = ''warning''" "lower ''medium'' = ''medium''"
  by code_simp+

lemma sev_map_get_defaults:
  "sev_map_get [] = ''medium''" "sev_map_get ''warning'' = ''medium''"
  "sev_map_get ''medium'' = ''medium''"
  by (simp_all add: sev_map_get_def SEV_MAP_def)

text \<open>
  C8. For an issue without a \<^verbatim>\<open>severity\<close> key the value that is lower-cased and
  looked up is the adapter's default: the empty string for psalm, \<^verbatim>\<open>warning\<close>
  for parse and \<^verbatim>\<open>medium\<close> for progpilot. Each of the three is mapped to
  medium, so every finding built from such an issue has severity medium, in both
  files.
\<close>

theorem severity_default_when_missing:
  assumes "map_of d ''severity'' = None"
  shows "py_lower (dget d ''severity'' (JStr [])) = Inr [] \<and> sev_map_get [] = ''medium''
       \<and> py_lower (dget d ''severity'' (JStr ''warning'')) = Inr ''warning''
       \<and> sev_map_get ''warning'' = ''medium''
       \<and> py_lower (dget d ''severity'' (JStr ''medium'')) = Inr ''medium''
       \<and> sev_map_get ''medium'' = ''medium''
       \<and> (psalm_issue (JObj d) = Inr f1 \<longrightarrow> severity f1 = ''medium'')
       \<and> (parse_issue (JObj d) = Inr f2 \<longrightarrow> severity f2 = ''medium'')
       \<and> (progpilot_issue (JObj d) = Inr f3 \<longrightarrow> severity f3 = ''medium'')
       \<and> (aegis_psalm_issue (JObj d) = Inr g1 \<longrightarrow> aegis_severity g1 = ''medium'')
       \<and> (aegis_parse_issue (JObj d) = Inr g2 \<longrightarrow> aegis_severity g2 = ''medium'')
       \<and> (aegis_progpilot_issue (JObj d) = Inr g3 \<longrightarrow> aegis_severity g3 = ''medium'')"
proof -
  have l: "py_lower (dget d ''severity'' (JStr s)) = Inr (lower s)" for s
    using assms by (simp add: dget_def py_lower_def)
  have 1: "psalm_issue (JObj d) = Inr f1 \<longrightarrow> severity f1 = ''medium''"
    by (auto simp: psalm_issue_def l lower_defaults sev_map_get_defaults split: sum.splits)
  have 2: "parse_issue (JObj d) = Inr f2 \<longrightarrow> severity f2 = ''medium''"
    by (auto simp: parse_issue_def l lower_defaults sev_map_get_defaults split: sum.splits)
  have 3: "progpilot_issue (JObj d) = Inr f3 \<longrightarrow> severity f3 = ''medium''"
    by (auto simp: progpilot_issue_def l lower_defaults sev_map_get_defaults split: sum.splits)
  have 4: "aegis_psalm_issue (JObj d) = Inr g1 \<longrightarrow> aegis_severity g1 = ''medium''"
    by (auto simp: aegis_psalm_issue_def l lower_defaults sev_map_get_defaults split: sum.splits)
  have 5: "aegis_parse_issue (JObj d) = Inr g2 \<longrightarrow> aegis_severity g2 = ''medium''"
    by (auto simp: aegis_parse_issue_def l lower_defaults sev_map_get_defaults split: sum.splits)
  have 6: "aegis_progpilot_issue (JObj d) = Inr g3 \<longrightarrow> aegis_severity g3 = ''medium''"
    by (auto simp: aegis_progpilot_issue_def l lower_defaults sev_map_get_defaults split: sum.splits)
  show ?thesis
    using l [of "[]"] l [of "''warning''"] l [of "''medium''"] 1 2 3 4 5 6
    by (simp add: lower_defaults sev_map_get_defaults)
qed

theorem severity_default_when_missing_witness:
  "map_of [(''line'', JInt 3), (''message'', JStr ''m'')] ''severity'' = None
   \<and> psalm_issue (JObj [(''line'', JInt 3), (''message'', JStr ''m'')])
       = Inr (projr (psalm_issue (JObj [(''line'', JInt 3), (''message'', JStr ''m'')])))
   \<and> severity (projr (psalm_issue (JObj [(''line'', JInt 3), (''message'', JStr ''m'')]))) = ''medium''
   \<and> parse_issue (JObj [(''line'', JInt 3), (''message'', JStr ''m'')])
       = Inr (projr (parse_issue (JObj [(''line'', JInt 3), (''message'', JStr ''m'')])))
   \<and> severity (projr (parse_issue (JObj [(''line'', JInt 3), (''message'', JStr ''m'')]))) = ''medium''
   \<and> progpilot_issue (JObj [(''line'', JInt 3), (''message'', JStr ''m'')])
       = Inr (projr (progpilot_issue (JObj [(''line'', JInt 3), (''message'', JStr ''m'')])))
   \<and> severity (projr (progpilot_issue (JObj [(''line'', JInt 3), (''message'', JStr ''m'')]))) = ''medium''
   \<and> aegis_psalm_issue (JObj [(''line'', JInt 3), (''message'', JStr ''m'')])
       = Inr (projr (aegis_psalm_issue (JObj [(''line'', JInt 3), (''message'', JStr ''m'')])))
   \<and> aegis_severity (projr (aegis_psalm_issue (JObj [(''line'', JInt 3), (''message'', JStr ''m'')]))) = ''medium''
   \<and> aegis_parse_issue (JObj [(''line'', JInt 3), (''message'', JStr ''m'')])
       = Inr (projr (aegis_parse_issue (JObj [(''line'', JInt 3), (''message'', JStr ''m'')])))
   \<and> aegis_severity (projr (aegis_parse_issue (JObj [(''line'', JInt 3), (''message'', JStr ''m'')]))) = ''medium''
   \<and> aegis_progpilot_issue (JObj [(''line'', JInt 3), (''message'', JStr ''m'')])
       = Inr (projr (aegis_progpilot_issue (JObj [(''line'', JInt 3), (''message'', JStr ''m'')])))
   \<and> aegis_severity (projr (aegis_progpilot_issue (JObj [(''line'', JInt 3), (''message'', JStr ''m'')]))) = ''medium''"
proof -
  let ?d = "[(''line'', JInt 3), (''message'', JStr ''m'')]"
  have h: "map_of ?d ''severity'' = None" by simp
  have 1: "psalm_issue (JObj ?d) = Inr (projr (psalm_issue (JObj ?d)))" by code_simp
  have 2: "parse_issue (JObj ?d) = Inr (projr (parse_issue (JObj ?d)))" by code_simp
  have 3: "progpilot_issue (JObj ?d) = Inr (projr (progpilot_issue (JObj ?d)))" by code_simp
  have 4: "aegis_psalm_issue (JObj ?d) = Inr (projr (aegis_psalm_issue (JObj ?d)))" by code_simp
  have 5: "aegis_parse_issue (JObj ?d) = Inr (projr (aegis_parse_issue (JObj ?d)))" by code_simp
  have 6: "aegis_progpilot_issue (JObj ?d) = Inr (projr (aegis_progpilot_issue (JObj ?d)))"
    by code_simp
  show ?thesis
    using h 1 2 3 4 5 6
      severity_default_when_missing [OF h,
        of "projr (psalm_issue (JObj ?d))" "projr (parse_issue (JObj ?d))"
           "projr (progpilot_issue (JObj ?d))" "projr (aegis_psalm_issue (JObj ?d))"
           "projr (aegis_parse_issue (JObj ?d))" "projr (aegis_progpilot_issue (JObj ?d))"]
    by (simp only: simp_thms)
qed

subsection \<open>An issue that raises\<close>

lemma before_first_error_stop:
  "findings_before_first_error (map Inr fs @ Inl e # rest) = fs"
  by (induction fs) auto

lemma raise_loop_stop:
  "map body pre = map Inr fs \<Longrightarrow> body bad = Inl e \<Longrightarrow>
   raise_loop body (pre @ bad # post) acc = Inl e"
proof (induction pre arbitrary: fs acc)
  case Nil
  then show ?case by simp
next
  case (Cons x pre)
  then obtain f fs' where "fs = f # fs'" "body x = Inr f" "map body pre = map Inr fs'"
    by (cases fs) auto
  with Cons show ?case by simp
qed

lemma raise_adapter_stop:
  assumes "top_level_list key a = Some (pre @ bad # post)"
    and "map body pre = map Inr fs" and "body bad = Inl e"
  shows "raise_adapter key body a = Inl e"
proof -
  from assms(1) obtain d where "a = JObj d" "map_of d key = Some (JList (pre @ bad # post))"
    by (auto simp: top_level_list_def split: json.splits option.splits)
  then show ?thesis
    using raise_loop_stop [OF assms(2,3)] by (simp add: raise_adapter_def py_get_def py_iter_def)
qed

lemma aegis_main_report_fails:
  "isl (aegis_normalize_psalm a) \<or> isl (aegis_normalize_parse b) \<or>
   isl (aegis_normalize_progpilot c) \<Longrightarrow> isl (aegis_main_report a b c)"
  by (auto simp: aegis_main_report_def Let_def split: sum.splits)

text \<open>
  C4 (as the specification states it: only the issue that throws is skipped).
  For the psalm payload \<^verbatim>\<open>{"issues":[{"severity":5},{"message":"x"}]}\<close> the first
  issue raises (an int has no \<^verbatim>\<open>lower\<close>); \<^verbatim>\<open>normalize_psalm\<close> of
  \<^verbatim>\<open>phalanx.py\<close> returns no finding at all, whereas skipping only the failing
  issue would return the finding of the second issue.
\<close>

theorem skip_only_failing_issue_counterexample:
  "psalm_issue (JObj [(''severity'', JInt 5)]) = Inl AttributeError
   \<and> normalize_psalm
        (JObj [(''issues'', JList [JObj [(''severity'', JInt 5)], JObj [(''message'', JStr ''x'')]])])
       = []
   \<and> spec_skip_failing psalm_issue [JObj [(''severity'', JInt 5)], JObj [(''message'', JStr ''x'')]]
       = [\<lparr> tool = ''psalm'', title = ''x'', file_path = [], line = 0, severity = ''medium'',
            code = [], metadata = [(''type'', []), (''link'', [])] \<rparr>]"
  by code_simp

text \<open>
  C4, amended. In \<^verbatim>\<open>phalanx.py\<close> an issue that throws does not make the adapter
  fail, but it ends the adapter's loop: the adapter returns the findings of the
  issues before the first one that throws, in order, and drops that issue and
  every issue after it. In \<^verbatim>\<open>aegisphp.py\<close> the exception leaves the adapter, for
  each of the three adapters, and then no report is produced.
\<close>

theorem adapter_stops_at_first_failing_issue:
  assumes "top_level_list ''issues'' a = Some (pre1 @ bad1 # post1)"
    and "map psalm_issue pre1 = map Inr fs1" and "psalm_issue bad1 = Inl e1"
    and "top_level_list ''findings'' b = Some (pre2 @ bad2 # post2)"
    and "map parse_issue pre2 = map Inr fs2" and "parse_issue bad2 = Inl e2"
    and "top_level_list ''results'' c = Some (pre3 @ bad3 # post3)"
    and "map progpilot_issue pre3 = map Inr fs3" and "progpilot_issue bad3 = Inl e3"
    and "top_level_list ''issues'' a' = Some (pre4 @ bad4 # post4)"
    and "map aegis_psalm_issue pre4 = map Inr gs4" and "aegis_psalm_issue bad4 = Inl e4"
    and "top_level_list ''findings'' pb = Some (pre5 @ bad5 # post5)"
    and "map aegis_parse_issue pre5 = map Inr gs5" and "aegis_parse_issue bad5 = Inl e5"
    and "top_level_list ''results'' pc = Some (pre6 @ bad6 # post6)"
    and "map aegis_progpilot_issue pre6 = map Inr gs6" and "aegis_progpilot_issue bad6 = Inl e6"
  shows "normalize_psalm p
           = findings_before_first_error (map psalm_issue (raw_issues ''issues'' p))
       \<and> normalize_parse q
           = findings_before_first_error (map parse_issue (raw_issues ''findings'' q))
       \<and> normalize_progpilot r
           = findings_before_first_error (map progpilot_issue (raw_issues ''results'' r))
       \<and> normalize_psalm a = fs1
       \<and> normalize_parse b = fs2
       \<and> normalize_progpilot c = fs3
       \<and> aegis_normalize_psalm a' = Inl e4
       \<and> aegis_main_report a' b' c' = Inl e4
       \<and> aegis_normalize_parse pb = Inl e5
       \<and> aegis_normalize_progpilot pc = Inl e6
       \<and> isl (aegis_main_report x pb z)
       \<and> isl (aegis_main_report x y pc)"
proof -
  have 1: "normalize_psalm a = fs1"
    using before_first_error_stop [of fs1 e1 "map psalm_issue post1"] assms(2,3)
    by (simp add: normalize_psalm_eq raw_issues_list [OF assms(1)])
  have 2: "normalize_parse b = fs2"
    using before_first_error_stop [of fs2 e2 "map parse_issue post2"] assms(5,6)
    by (simp add: normalize_parse_eq raw_issues_list [OF assms(4)])
  have 3: "normalize_progpilot c = fs3"
    using before_first_error_stop [of fs3 e3 "map progpilot_issue post3"] assms(8,9)
    by (simp add: normalize_progpilot_eq raw_issues_list [OF assms(7)])
  have 4: "aegis_normalize_psalm a' = Inl e4"
    unfolding aegis_normalize_psalm_def by (rule raise_adapter_stop [OF assms(10,11,12)])
  have 5: "aegis_main_report a' b' c' = Inl e4"
    by (simp add: aegis_main_report_def 4)
  have 6: "aegis_normalize_parse pb = Inl e5"
    unfolding aegis_normalize_parse_def by (rule raise_adapter_stop [OF assms(13,14,15)])
  have 7: "aegis_normalize_progpilot pc = Inl e6"
    unfolding aegis_normalize_progpilot_def by (rule raise_adapter_stop [OF assms(16,17,18)])
  have 8: "isl (aegis_main_report x pb z)"
    by (rule aegis_main_report_fails) (simp add: 6)
  have 9: "isl (aegis_main_report x y pc)"
    by (rule aegis_main_report_fails) (simp add: 7)
  show ?thesis
    using 1 2 3 4 5 6 7 8 9
      normalize_psalm_eq [of p] normalize_parse_eq [of q] normalize_progpilot_eq [of r]
    by (simp only: simp_thms)
qed

theorem adapter_stops_at_first_failing_issue_witness:
  "top_level_list ''issues'' failing_psalm
     = Some ([JObj [(''message'', JStr ''ok'')]] @ JObj [(''severity'', JInt 5)]
             # [JObj [(''message'', JStr ''x'')]])
   \<and> map psalm_issue [JObj [(''message'', JStr ''ok'')]]
       = map Inr [projr (psalm_issue (JObj [(''message'', JStr ''ok'')]))]
   \<and> psalm_issue (JObj [(''severity'', JInt 5)]) = Inl AttributeError
   \<and> top_level_list ''findings'' failing_parse = Some ([] @ JObj [(''line'', JStr ''abc'')] # [])
   \<and> map parse_issue [] = map Inr []
   \<and> parse_issue (JObj [(''line'', JStr ''abc'')]) = Inl ValueError
   \<and> top_level_list ''results'' failing_progpilot = Some ([JObj []] @ JInt 7 # [])
   \<and> map progpilot_issue [JObj []] = map Inr [projr (progpilot_issue (JObj []))]
   \<and> progpilot_issue (JInt 7) = Inl AttributeError
   \<and> map aegis_psalm_issue [JObj [(''message'', JStr ''ok'')]]
       = map Inr [projr (aegis_psalm_issue (JObj [(''message'', JStr ''ok'')]))]
   \<and> aegis_psalm_issue (JObj [(''severity'', JInt 5)]) = Inl AttributeError
   \<and> top_level_list ''findings'' (JObj [(''findings'', JList [JObj [(''severity'', JNull)]])])
       = Some ([] @ JObj [(''severity'', JNull)] # [])
   \<and> map aegis_parse_issue [] = map Inr []
   \<and> aegis_parse_issue (JObj [(''severity'', JNull)]) = Inl AttributeError
   \<and> map aegis_progpilot_issue [JObj []] = map Inr [projr (aegis_progpilot_issue (JObj []))]
   \<and> aegis_progpilot_issue (JInt 7) = Inl AttributeError
   \<and> normalize_psalm failing_psalm = [projr (psalm_issue (JObj [(''message'', JStr ''ok'')]))]
   \<and> normalize_parse failing_parse = []
   \<and> normalize_progpilot failing_progpilot = [projr (progpilot_issue (JObj []))]
   \<and> aegis_normalize_psalm failing_psalm = Inl AttributeError
   \<and> aegis_main_report failing_psalm scenario_parse scenario_progpilot = Inl AttributeError
   \<and> aegis_normalize_parse (JObj [(''findings'', JList [JObj [(''severity'', JNull)]])])
       = Inl AttributeError
   \<and> aegis_normalize_progpilot failing_progpilot = Inl AttributeError
   \<and> isl (aegis_main_report scenario_psalm
        (JObj [(''findings'', JList [JObj [(''severity'', JNull)]])]) scenario_progpilot)
   \<and> isl (aegis_main_report scenario_psalm scenario_parse failing_progpilot)"
proof -
  have h1: "top_level_list ''issues'' failing_psalm
     = Some ([JObj [(''message'', JStr ''ok'')]] @ JObj [(''severity'', JInt 5)]
             # [JObj [(''message'', JStr ''x'')]])"
    by code_simp
  have h2: "map psalm_issue [JObj [(''message'', JStr ''ok'')]]
       = map Inr [projr (psalm_issue (JObj [(''message'', JStr ''ok'')]))]"
    by code_simp
  have h3: "psalm_issue (JObj [(''severity'', JInt 5)]) = Inl AttributeError" by code_simp
  have h4: "top_level_list ''findings'' failing_parse
     = Some ([] @ JObj [(''line'', JStr ''abc'')] # [])"
    by code_simp
  have h5: "map parse_issue [] = map Inr []" by simp
  have h6: "parse_issue (JObj [(''line'', JStr ''abc'')]) = Inl ValueError" by code_simp
  have h7: "top_level_list ''results'' failing_progpilot = Some ([JObj []] @ JInt 7 # [])"
    by code_simp
  have h8: "map progpilot_issue [JObj []] = map Inr [projr (progpilot_issue (JObj []))]"
    by code_simp
  have h9: "progpilot_issue (JInt 7) = Inl AttributeError" by code_simp
  have h11: "map aegis_psalm_issue [JObj [(''message'', JStr ''ok'')]]
       = map Inr [projr (aegis_psalm_issue (JObj [(''message'', JStr ''ok'')]))]"
    by code_simp
  have h12: "aegis_psalm_issue (JObj [(''severity'', JInt 5)]) = Inl AttributeError"
    by code_simp
  have h13: "top_level_list ''findings'' (JObj [(''findings'', JList [JObj [(''severity'', JNull)]])])
       = Some ([] @ JObj [(''severity'', JNull)] # [])"
    by code_simp
  have h14: "map aegis_parse_issue [] = map Inr []" by simp
  have h15: "aegis_parse_issue (JObj [(''severity'', JNull)]) = Inl AttributeError"
    by code_simp
  have h17: "map aegis_progpilot_issue [JObj []]
       = map Inr [projr (aegis_progpilot_issue (JObj []))]"
    by code_simp
  have h18: "aegis_progpilot_issue (JInt 7) = Inl AttributeError" by code_simp
  show ?thesis
    using h1 h2 h3 h4 h5 h6 h7 h8 h9 h11 h12 h13 h14 h15 h17 h18
      adapter_stops_at_first_failing_issue
        [OF h1 h2 h3 h4 h5 h6 h7 h8 h9 h1 h11 h12 h13 h14 h15 h7 h17 h18,
         of scenario_psalm scenario_parse scenario_progpilot scenario_parse scenario_progpilot
            scenario_psalm scenario_progpilot scenario_parse]
    by (simp only: simp_thms)
qed

subsection \<open>The line field\<close>

lemma psalm_issue_line:
  "psalm_issue (JObj d) = Inr f \<Longrightarrow> py_int (dget d ''line_from'' (JInt 0)) = Inr (line f)"
  by (auto simp: psalm_issue_def split: sum.splits)

lemma parse_issue_line:
  "parse_issue (JObj d) = Inr f \<Longrightarrow> py_int (dget d ''line'' (JInt 0)) = Inr (line f)"
  by (auto simp: parse_issue_def split: sum.splits)

lemma progpilot_issue_line:
  "progpilot_issue (JObj d) = Inr f \<Longrightarrow> py_int (dget d ''line'' (JInt 0)) = Inr (line f)"
  by (auto simp: progpilot_issue_def split: sum.splits)

lemma line_absent_or_coerced:
  "py_int (dget d key (JInt 0)) = Inr n \<Longrightarrow>
   (if map_of d key = None then n = 0 else py_int (the (map_of d key)) = Inr n)"
  by (auto simp: dget_def py_int_def split: option.splits)

lemma psalm_issue_line_fails:
  "py_int (dget d ''line_from'' (JInt 0)) = Inl e \<Longrightarrow> isl (psalm_issue (JObj d))"
  by (auto simp: psalm_issue_def split: sum.splits)

lemma parse_issue_line_fails:
  "py_int (dget d ''line'' (JInt 0)) = Inl e \<Longrightarrow> isl (parse_issue (JObj d))"
  by (auto simp: parse_issue_def split: sum.splits)

lemma progpilot_issue_line_fails:
  "py_int (dget d ''line'' (JInt 0)) = Inl e \<Longrightarrow> isl (progpilot_issue (JObj d))"
  by (auto simp: progpilot_issue_def split: sum.splits)

lemma before_first_error_isl:
  "isl r \<Longrightarrow> findings_before_first_error (r # rs) = []"
  by (cases r) auto

text \<open>
  C6 (as the specification states it: a line that cannot be coerced gives 0 and
  the finding is kept). For the psalm payload
  \<^verbatim>\<open>{"issues":[{"line_from":"abc"}]}\<close>, \<^verbatim>\<open>int("abc")\<close> raises ValueError, no
  finding is built, and \<^verbatim>\<open>normalize_psalm\<close> of \<^verbatim>\<open>phalanx.py\<close> returns the empty
  list: there is no finding with line 0.
\<close>

theorem line_abc_counterexample:
  "py_int (JStr ''abc'') = Inl ValueError
   \<and> psalm_issue (JObj [(''line_from'', JStr ''abc'')]) = Inl ValueError
   \<and> normalize_psalm (JObj [(''issues'', JList [JObj [(''line_from'', JStr ''abc'')]])]) = []"
  by code_simp

lemma before_first_error_stop_isl:
  assumes "map body pre = map Inr fs" and "isl (body bad)"
  shows "findings_before_first_error (map body (pre @ bad # post)) = fs"
proof -
  from assms(2) obtain e where "body bad = Inl e" by (cases "body bad") auto
  then show ?thesis
    using before_first_error_stop [of fs e "map body post"] assms(1) by simp
qed

text \<open>
  C6, amended. In \<^verbatim>\<open>phalanx.py\<close> the line of a finding is 0 when the raw line
  field is absent and otherwise the value \<^verbatim>\<open>int(...)\<close> returns for the raw field.
  When \<^verbatim>\<open>int(...)\<close> raises, no finding is built for the issue and the adapter's
  loop ends there: wherever the issue stands in the list, the adapter returns
  exactly the findings of the issues before it (none when it is the first). In
  \<^verbatim>\<open>aegisphp.py\<close> the line is the raw value as it is, and None when it is absent.
\<close>

theorem line_is_int_coercion:
  assumes "psalm_issue (JObj d1) = Inr f1"
    and "parse_issue (JObj d2) = Inr f2"
    and "progpilot_issue (JObj d3) = Inr f3"
    and "py_int (dget e1 ''line_from'' (JInt 0)) = Inl x1"
    and "py_int (dget e2 ''line'' (JInt 0)) = Inl x2"
    and "py_int (dget e3 ''line'' (JInt 0)) = Inl x3"
    and "aegis_psalm_issue (JObj d4) = Inr g4"
    and "aegis_parse_issue (JObj d5) = Inr g5"
    and "aegis_progpilot_issue (JObj d6) = Inr g6"
    and "top_level_list ''issues'' a = Some (pre1 @ JObj e1 # post1)"
    and "map psalm_issue pre1 = map Inr fs1"
    and "top_level_list ''findings'' b = Some (pre2 @ JObj e2 # post2)"
    and "map parse_issue pre2 = map Inr fs2"
    and "top_level_list ''results'' c = Some (pre3 @ JObj e3 # post3)"
    and "map progpilot_issue pre3 = map Inr fs3"
  shows "(if map_of d1 ''line_from'' = None then line f1 = 0
          else py_int (the (map_of d1 ''line_from'')) = Inr (line f1))
       \<and> (if map_of d2 ''line'' = None then line f2 = 0
          else py_int (the (map_of d2 ''line'')) = Inr (line f2))
       \<and> (if map_of d3 ''line'' = None then line f3 = 0
          else py_int (the (map_of d3 ''line'')) = Inr (line f3))
       \<and> isl (psalm_issue (JObj e1))
       \<and> isl (parse_issue (JObj e2))
       \<and> isl (progpilot_issue (JObj e3))
       \<and> normalize_psalm (JObj [(''issues'', JList (JObj e1 # rest1))]) = []
       \<and> normalize_parse (JObj [(''findings'', JList (JObj e2 # rest2))]) = []
       \<and> normalize_progpilot (JObj [(''results'', JList (JObj e3 # rest3))]) = []
       \<and> normalize_psalm a = fs1
       \<and> normalize_parse b = fs2
       \<and> normalize_progpilot c = fs3
       \<and> aegis_line g4 = dget d4 ''line_from'' JNull
       \<and> aegis_line g5 = dget d5 ''line'' JNull
       \<and> aegis_line g6 = dget d6 ''line'' JNull"
proof -
  note l1 = line_absent_or_coerced [OF psalm_issue_line [OF assms(1)]]
  note l2 = line_absent_or_coerced [OF parse_issue_line [OF assms(2)]]
  note l3 = line_absent_or_coerced [OF progpilot_issue_line [OF assms(3)]]
  note i1 = psalm_issue_line_fails [OF assms(4)]
  note i2 = parse_issue_line_fails [OF assms(5)]
  note i3 = progpilot_issue_line_fails [OF assms(6)]
  have r1: "raw_issues ''issues'' (JObj [(''issues'', JList (JObj e1 # rest1))]) = JObj e1 # rest1"
    by (simp add: raw_issues_def py_get_def py_iter_def)
  have r2: "raw_issues ''findings'' (JObj [(''findings'', JList (JObj e2 # rest2))]) = JObj e2 # rest2"
    by (simp add: raw_issues_def py_get_def py_iter_def)
  have r3: "raw_issues ''results'' (JObj [(''results'', JList (JObj e3 # rest3))]) = JObj e3 # rest3"
    by (simp add: raw_issues_def py_get_def py_iter_def)
  have n1: "normalize_psalm (JObj [(''issues'', JList (JObj e1 # rest1))]) = []"
    by (simp add: normalize_psalm_eq r1 before_first_error_isl [OF i1])
  have n2: "normalize_parse (JObj [(''findings'', JList (JObj e2 # rest2))]) = []"
    by (simp add: normalize_parse_eq r2 before_first_error_isl [OF i2])
  have n3: "normalize_progpilot (JObj [(''results'', JList (JObj e3 # rest3))]) = []"
    by (simp add: normalize_progpilot_eq r3 before_first_error_isl [OF i3])
  have g1: "normalize_psalm a = fs1"
    unfolding normalize_psalm_eq raw_issues_list [OF assms(10)]
    by (rule before_first_error_stop_isl [OF assms(11) i1])
  have g2: "normalize_parse b = fs2"
    unfolding normalize_parse_eq raw_issues_list [OF assms(12)]
    by (rule before_first_error_stop_isl [OF assms(13) i2])
  have g3: "normalize_progpilot c = fs3"
    unfolding normalize_progpilot_eq raw_issues_list [OF assms(14)]
    by (rule before_first_error_stop_isl [OF assms(15) i3])
  have a4: "aegis_line g4 = dget d4 ''line_from'' JNull"
    using assms(7) by (auto simp: aegis_psalm_issue_def split: sum.splits)
  have a5: "aegis_line g5 = dget d5 ''line'' JNull"
    using assms(8) by (auto simp: aegis_parse_issue_def split: sum.splits)
  have a6: "aegis_line g6 = dget d6 ''line'' JNull"
    using assms(9) by (auto simp: aegis_progpilot_issue_def split: sum.splits)
  show ?thesis
    using l1 l2 l3 i1 i2 i3 n1 n2 n3 g1 g2 g3 a4 a5 a6 by (simp only: simp_thms)
qed

theorem line_is_int_coercion_witness:
  "psalm_issue (JObj []) = Inr (projr (psalm_issue (JObj [])))
   \<and> parse_issue (JObj [(''line'', JStr '' 42 '')])
       = Inr (projr (parse_issue (JObj [(''line'', JStr '' 42 '')])))
   \<and> progpilot_issue (JObj [(''line'', JInt (- 3))])
       = Inr (projr (progpilot_issue (JObj [(''line'', JInt (- 3))])))
   \<and> py_int (dget [(''line_from'', JStr [CHR ''7'', CHR 0x1F])] ''line_from'' (JInt 0))
       = Inl ValueError
   \<and> py_int (dget [(''line'', JNull)] ''line'' (JInt 0)) = Inl TypeError
   \<and> py_int (dget [(''line'', JStr ''1.5'')] ''line'' (JInt 0)) = Inl ValueError
   \<and> aegis_psalm_issue (JObj [(''line_from'', JStr ''abc'')])
       = Inr (projr (aegis_psalm_issue (JObj [(''line_from'', JStr ''abc'')])))
   \<and> aegis_parse_issue (JObj []) = Inr (projr (aegis_parse_issue (JObj [])))
   \<and> aegis_progpilot_issue (JObj [(''line'', JInt 3)])
       = Inr (projr (aegis_progpilot_issue (JObj [(''line'', JInt 3)])))
   \<and> top_level_list ''issues''
         (JObj [(''issues'', JList [JObj [(''line_from'', JInt 4)],
                                   JObj [(''line_from'', JStr [CHR ''7'', CHR 0x1F])],
                                   JObj [(''line_from'', JInt 9)]])])
       = Some ([JObj [(''line_from'', JInt 4)]]
               @ JObj [(''line_from'', JStr [CHR ''7'', CHR 0x1F])]
               # [JObj [(''line_from'', JInt 9)]])
   \<and> map psalm_issue [JObj [(''line_from'', JInt 4)]]
       = map Inr [projr (psalm_issue (JObj [(''line_from'', JInt 4)]))]
   \<and> top_level_list ''findings'' (JObj [(''findings'', JList [JObj [(''line'', JNull)]])])
       = Some ([] @ JObj [(''line'', JNull)] # [])
   \<and> map parse_issue [] = map Inr []
   \<and> top_level_list ''results''
         (JObj [(''results'', JList [JObj [], JObj [(''line'', JStr ''1.5'')]])])
       = Some ([JObj []] @ JObj [(''line'', JStr ''1.5'')] # [])
   \<and> map progpilot_issue [JObj []] = map Inr [projr (progpilot_issue (JObj []))]
   \<and> line (projr (psalm_issue (JObj []))) = 0
   \<and> line (projr (parse_issue (JObj [(''line'', JStr '' 42 '')]))) = 42
   \<and> line (projr (progpilot_issue (JObj [(''line'', JInt (- 3))]))) = - 3
   \<and> normalize_psalm
        (JObj [(''issues'', JList (JObj [(''line_from'', JStr [CHR ''7'', CHR 0x1F])] # [JObj []]))])
       = []
   \<and> normalize_psalm
         (JObj [(''issues'', JList [JObj [(''line_from'', JInt 4)],
                                   JObj [(''line_from'', JStr [CHR ''7'', CHR 0x1F])],
                                   JObj [(''line_from'', JInt 9)]])])
       = [projr (psalm_issue (JObj [(''line_from'', JInt 4)]))]
   \<and> normalize_parse (JObj [(''findings'', JList [JObj [(''line'', JNull)]])]) = []
   \<and> normalize_progpilot (JObj [(''results'', JList [JObj [], JObj [(''line'', JStr ''1.5'')]])])
       = [projr (progpilot_issue (JObj []))]
   \<and> aegis_line (projr (aegis_psalm_issue (JObj [(''line_from'', JStr ''abc'')]))) = JStr ''abc''
   \<and> aegis_line (projr (aegis_parse_issue (JObj []))) = JNull"
proof -
  have h1: "psalm_issue (JObj []) = Inr (projr (psalm_issue (JObj [])))" by code_simp
  have h2: "parse_issue (JObj [(''line'', JStr '' 42 '')])
       = Inr (projr (parse_issue (JObj [(''line'', JStr '' 42 '')])))" by code_simp
  have h3: "progpilot_issue (JObj [(''line'', JInt (- 3))])
       = Inr (projr (progpilot_issue (JObj [(''line'', JInt (- 3))])))" by code_simp
  have h4: "py_int (dget [(''line_from'', JStr [CHR ''7'', CHR 0x1F])] ''line_from'' (JInt 0))
       = Inl ValueError"
    by code_simp
  have h5: "py_int (dget [(''line'', JNull)] ''line'' (JInt 0)) = Inl TypeError" by code_simp
  have h6: "py_int (dget [(''line'', JStr ''1.5'')] ''line'' (JInt 0)) = Inl ValueError"
    by code_simp
  have h7: "aegis_psalm_issue (JObj [(''line_from'', JStr ''abc'')])
       = Inr (projr (aegis_psalm_issue (JObj [(''line_from'', JStr ''abc'')])))" by code_simp
  have h8: "aegis_parse_issue (JObj []) = Inr (projr (aegis_parse_issue (JObj [])))" by code_simp
  have h9: "aegis_progpilot_issue (JObj [(''line'', JInt 3)])
       = Inr (projr (aegis_progpilot_issue (JObj [(''line'', JInt 3)])))" by code_simp
  have h10: "top_level_list ''issues''
         (JObj [(''issues'', JList [JObj [(''line_from'', JInt 4)],
                                   JObj [(''line_from'', JStr [CHR ''7'', CHR 0x1F])],
                                   JObj [(''line_from'', JInt 9)]])])
       = Some ([JObj [(''line_from'', JInt 4)]]
               @ JObj [(''line_from'', JStr [CHR ''7'', CHR 0x1F])]
               # [JObj [(''line_from'', JInt 9)]])"
    by (simp add: top_level_list_def)
  have h11: "map psalm_issue [JObj [(''line_from'', JInt 4)]]
       = map Inr [projr (psalm_issue (JObj [(''line_from'', JInt 4)]))]"
    by code_simp
  have h12: "top_level_list ''findings'' (JObj [(''findings'', JList [JObj [(''line'', JNull)]])])
       = Some ([] @ JObj [(''line'', JNull)] # [])"
    by (simp add: top_level_list_def)
  have h13: "map parse_issue [] = map Inr []" by simp
  have h14: "top_level_list ''results''
         (JObj [(''results'', JList [JObj [], JObj [(''line'', JStr ''1.5'')]])])
       = Some ([JObj []] @ JObj [(''line'', JStr ''1.5'')] # [])"
    by (simp add: top_level_list_def)
  have h15: "map progpilot_issue [JObj []] = map Inr [projr (progpilot_issue (JObj []))]"
    by code_simp
  have p: "py_int (JStr '' 42 '') = Inr 42" by code_simp
  note t = line_is_int_coercion [OF h1 h2 h3 h4 h5 h6 h7 h8 h9 h10 h11 h12 h13 h14 h15,
      of "[JObj []]" "[]" "[]"]
  have c1: "line (projr (psalm_issue (JObj []))) = 0" using t by simp
  have c2: "line (projr (parse_issue (JObj [(''line'', JStr '' 42 '')]))) = 42"
    using t p by simp
  have c3: "line (projr (progpilot_issue (JObj [(''line'', JInt (- 3))]))) = - 3"
    using t by (simp add: py_int_def)
  have c4: "normalize_psalm
        (JObj [(''issues'', JList (JObj [(''line_from'', JStr [CHR ''7'', CHR 0x1F])] # [JObj []]))])
       = []"
    using t by (elim conjE)
  have c5: "aegis_line (projr (aegis_psalm_issue (JObj [(''line_from'', JStr ''abc'')]))) = JStr ''abc''"
    using t by (simp add: dget_def)
  have c6: "aegis_line (projr (aegis_parse_issue (JObj []))) = JNull"
    using t by (simp add: dget_def)
  have c7: "normalize_psalm
         (JObj [(''issues'', JList [JObj [(''line_from'', JInt 4)],
                                   JObj [(''line_from'', JStr [CHR ''7'', CHR 0x1F])],
                                   JObj [(''line_from'', JInt 9)]])])
       = [projr (psalm_issue (JObj [(''line_from'', JInt 4)]))]"
    using t by (elim conjE)
  have c8: "normalize_parse (JObj [(''findings'', JList [JObj [(''line'', JNull)]])]) = []"
    using t by (elim conjE)
  have c9: "normalize_progpilot (JObj [(''results'', JList [JObj [], JObj [(''line'', JStr ''1.5'')]])])
       = [projr (progpilot_issue (JObj []))]"
    using t by (elim conjE)
  show ?thesis
    using h1 h2 h3 h4 h5 h6 h7 h8 h9 h10 h11 h12 h13 h14 h15 c1 c2 c3 c4 c5 c6 c7 c8 c9
    by (simp only: simp_thms)
qed

subsection \<open>The code field\<close>

lemma strip_decompose:
  "s = takeWhile isspace s @ strip s @ rev (takeWhile isspace (rev (dropWhile isspace s)))"
proof -
  let ?t = "dropWhile isspace s"
  have "rev (takeWhile isspace (rev ?t) @ dropWhile isspace (rev ?t)) = ?t" by simp
  then have "rev (dropWhile isspace (rev ?t)) @ rev (takeWhile isspace (rev ?t)) = ?t"
    by (simp only: rev_append)
  then have "strip s @ rev (takeWhile isspace (rev ?t)) = ?t"
    by (simp only: strip_def)
  moreover have "takeWhile isspace s @ ?t = s" by simp
  ultimately show ?thesis by (simp only:)
qed

lemma strip_last: "strip s \<noteq> [] \<Longrightarrow> \<not> isspace (last (strip s))"
  by (simp add: strip_def last_rev hd_dropWhile)

lemma strip_hd: "strip s \<noteq> [] \<Longrightarrow> \<not> isspace (hd (strip s))"
proof -
  assume ne: "strip s \<noteq> []"
  let ?t = "dropWhile isspace s"
  let ?u = "dropWhile isspace (rev ?t)"
  from ne have u: "?u \<noteq> []" by (simp add: strip_def)
  have t: "?t \<noteq> []"
  proof
    assume "?t = []"
    then have "?u = []" by (simp only: rev.simps(1) dropWhile.simps(1))
    with u show False by (simp only:)
  qed
  have "hd (strip s) = last ?u" using u by (simp add: strip_def hd_rev)
  also have "\<dots> = last (rev ?t)"
    using u by (metis append_Nil2 last_appendR takeWhile_dropWhile_id)
  also have "\<dots> = hd ?t" using t by (simp add: last_rev)
  finally show ?thesis using t by (simp add: hd_dropWhile)
qed

lemma psalm_issue_code:
  "psalm_issue (JObj d) = Inr f \<Longrightarrow>
   code f = slice_to 1000 (strip (py_str (dget d ''snippet'' (JStr []))))"
  by (auto simp: psalm_issue_def split: sum.splits)

lemma parse_issue_code:
  "parse_issue (JObj d) = Inr f \<Longrightarrow> code f = slice_to 1000 (py_str (dget d ''code'' (JStr [])))"
  by (auto simp: parse_issue_def split: sum.splits)

lemma progpilot_issue_code:
  "progpilot_issue (JObj d) = Inr f \<Longrightarrow>
   code f = slice_to 1000 (py_str (dget d ''code'' (JStr [])))"
  by (auto simp: progpilot_issue_def split: sum.splits)

lemma strip_Nil: "strip [] = []"
  by (simp add: strip_def)

lemma py_str_JStr: "py_str (JStr s) = s"
  by (simp add: py_str_def)

text \<open>
  C9 (as the specification states it: every adapter strips the code). For the
  parse issue \<^verbatim>\<open>{"code": "  x "}\<close> the finding of \<^verbatim>\<open>phalanx.py\<close> has the code
  \<^verbatim>\<open>"  x "\<close> with its whitespace, while the stripped string is \<^verbatim>\<open>"x"\<close>.
\<close>

theorem code_not_stripped_counterexample:
  "parse_issue (JObj [(''code'', JStr ''  x '')])
     = Inr \<lparr> tool = ''parse'', title = [], file_path = [], line = 0, severity = ''medium'',
             code = ''  x '', metadata = [(''rule'', [])] \<rparr>
   \<and> strip ''  x '' = ''x''"
  by code_simp

text \<open>
  C9, amended. In \<^verbatim>\<open>phalanx.py\<close> the code of a finding is the empty string when
  the raw field is missing and has at most 1000 characters. The psalm adapter
  strips leading and trailing whitespace from \<^verbatim>\<open>str(snippet)\<close> and then keeps the
  first 1000 characters; the parse and progpilot adapters keep the first 1000
  characters of \<^verbatim>\<open>str(code)\<close> without stripping. Stripping removes a run of
  whitespace at each end and leaves a string that neither starts nor ends with
  whitespace. In \<^verbatim>\<open>aegisphp.py\<close> psalm stores the stripped snippet without a
  bound, and parse and progpilot store the raw value (the empty string when
  missing).
\<close>

theorem code_field:
  assumes "psalm_issue (JObj d1) = Inr f1"
    and "parse_issue (JObj d2) = Inr f2"
    and "progpilot_issue (JObj d3) = Inr f3"
    and "aegis_psalm_issue (JObj d4) = Inr g4"
    and "aegis_parse_issue (JObj d5) = Inr g5"
    and "aegis_progpilot_issue (JObj d6) = Inr g6"
  shows "(if map_of d1 ''snippet'' = None then code f1 = []
          else code f1 = take 1000 (strip (py_str (the (map_of d1 ''snippet'')))))
       \<and> (if map_of d2 ''code'' = None then code f2 = []
          else code f2 = take 1000 (py_str (the (map_of d2 ''code''))))
       \<and> (if map_of d3 ''code'' = None then code f3 = []
          else code f3 = take 1000 (py_str (the (map_of d3 ''code''))))
       \<and> length (code f1) \<le> 1000 \<and> length (code f2) \<le> 1000 \<and> length (code f3) \<le> 1000
       \<and> py_str (JStr s) = s
       \<and> s = takeWhile isspace s @ strip s @ rev (takeWhile isspace (rev (dropWhile isspace s)))
       \<and> (if strip s = [] then True
          else \<not> isspace (hd (strip s)) \<and> \<not> isspace (last (strip s)))
       \<and> (if map_of d4 ''snippet'' = None then aegis_code g4 = JStr []
          else py_strip (the (map_of d4 ''snippet'')) = Inr (projr (py_strip (the (map_of d4 ''snippet'')))) \<and>
               aegis_code g4 = JStr (projr (py_strip (the (map_of d4 ''snippet'')))))
       \<and> aegis_code g5 = dget d5 ''code'' (JStr [])
       \<and> aegis_code g6 = dget d6 ''code'' (JStr [])"
proof -
  have c1: "(if map_of d1 ''snippet'' = None then code f1 = []
          else code f1 = take 1000 (strip (py_str (the (map_of d1 ''snippet'')))))"
    using psalm_issue_code [OF assms(1)]
    by (auto simp: dget_def slice_to_def py_str_JStr strip_Nil split: option.splits)
  have c2: "(if map_of d2 ''code'' = None then code f2 = []
          else code f2 = take 1000 (py_str (the (map_of d2 ''code''))))"
    using parse_issue_code [OF assms(2)]
    by (auto simp: dget_def slice_to_def py_str_JStr split: option.splits)
  have c3: "(if map_of d3 ''code'' = None then code f3 = []
          else code f3 = take 1000 (py_str (the (map_of d3 ''code''))))"
    using progpilot_issue_code [OF assms(3)]
    by (auto simp: dget_def slice_to_def py_str_JStr split: option.splits)
  have n1: "length (code f1) \<le> 1000"
    by (simp add: psalm_issue_code [OF assms(1)] slice_to_def)
  have n2: "length (code f2) \<le> 1000"
    by (simp add: parse_issue_code [OF assms(2)] slice_to_def)
  have n3: "length (code f3) \<le> 1000"
    by (simp add: progpilot_issue_code [OF assms(3)] slice_to_def)
  have st: "(if strip s = [] then True
          else \<not> isspace (hd (strip s)) \<and> \<not> isspace (last (strip s)))"
    using strip_hd [of s] strip_last [of s] by simp
  have a4: "(if map_of d4 ''snippet'' = None then aegis_code g4 = JStr []
          else py_strip (the (map_of d4 ''snippet'')) = Inr (projr (py_strip (the (map_of d4 ''snippet'')))) \<and>
               aegis_code g4 = JStr (projr (py_strip (the (map_of d4 ''snippet'')))))"
    using assms(4)
    by (auto simp: aegis_psalm_issue_def dget_def py_strip_def strip_Nil
        split: sum.splits option.splits json.splits)
  have a5: "aegis_code g5 = dget d5 ''code'' (JStr [])"
    using assms(5) by (auto simp: aegis_parse_issue_def split: sum.splits)
  have a6: "aegis_code g6 = dget d6 ''code'' (JStr [])"
    using assms(6) by (auto simp: aegis_progpilot_issue_def split: sum.splits)
  show ?thesis
    using c1 c2 c3 n1 n2 n3 py_str_JStr [of s] strip_decompose [of s] st a4 a5 a6
    by (simp only: simp_thms)
qed


theorem code_field_witness:
  "psalm_issue (JObj [(''snippet'', JStr ''  $x = 1;  '')])
     = Inr (projr (psalm_issue (JObj [(''snippet'', JStr ''  $x = 1;  '')])))
   \<and> parse_issue (JObj [(''code'', JStr ''  x '')])
       = Inr (projr (parse_issue (JObj [(''code'', JStr ''  x '')])))
   \<and> progpilot_issue (JObj []) = Inr (projr (progpilot_issue (JObj [])))
   \<and> aegis_psalm_issue (JObj [(''snippet'', JStr ''  $x = 1;  '')])
       = Inr (projr (aegis_psalm_issue (JObj [(''snippet'', JStr ''  $x = 1;  '')])))
   \<and> aegis_parse_issue (JObj [(''code'', JStr ''  x '')])
       = Inr (projr (aegis_parse_issue (JObj [(''code'', JStr ''  x '')])))
   \<and> aegis_progpilot_issue (JObj []) = Inr (projr (aegis_progpilot_issue (JObj [])))
   \<and> code (projr (psalm_issue (JObj [(''snippet'', JStr ''  $x = 1;  '')]))) = ''$x = 1;''
   \<and> code (projr (parse_issue (JObj [(''code'', JStr ''  x '')]))) = ''  x ''
   \<and> code (projr (progpilot_issue (JObj []))) = []
   \<and> aegis_code (projr (aegis_psalm_issue (JObj [(''snippet'', JStr ''  $x = 1;  '')])))
       = JStr ''$x = 1;''
   \<and> aegis_code (projr (aegis_parse_issue (JObj [(''code'', JStr ''  x '')]))) = JStr ''  x ''
   \<and> aegis_code (projr (aegis_progpilot_issue (JObj []))) = JStr []"
proof -
  have h1: "psalm_issue (JObj [(''snippet'', JStr ''  $x = 1;  '')])
     = Inr (projr (psalm_issue (JObj [(''snippet'', JStr ''  $x = 1;  '')])))" by code_simp
  have h2: "parse_issue (JObj [(''code'', JStr ''  x '')])
       = Inr (projr (parse_issue (JObj [(''code'', JStr ''  x '')])))" by code_simp
  have h3: "progpilot_issue (JObj []) = Inr (projr (progpilot_issue (JObj [])))" by code_simp
  have h4: "aegis_psalm_issue (JObj [(''snippet'', JStr ''  $x = 1;  '')])
       = Inr (projr (aegis_psalm_issue (JObj [(''snippet'', JStr ''  $x = 1;  '')])))"
    by code_simp
  have h5: "aegis_parse_issue (JObj [(''code'', JStr ''  x '')])
       = Inr (projr (aegis_parse_issue (JObj [(''code'', JStr ''  x '')])))" by code_simp
  have h6: "aegis_progpilot_issue (JObj []) = Inr (projr (aegis_progpilot_issue (JObj [])))"
    by code_simp
  have s: "strip ''  $x = 1;  '' = ''$x = 1;''" by code_simp
  note t = code_field [OF h1 h2 h3 h4 h5 h6, of "''  $x = 1;  ''"]
  have c1: "code (projr (psalm_issue (JObj [(''snippet'', JStr ''  $x = 1;  '')]))) = ''$x = 1;''"
    using t by (simp add: s py_str_def)
  have c2: "code (projr (parse_issue (JObj [(''code'', JStr ''  x '')]))) = ''  x ''"
    using t by (simp add: py_str_def)
  have c3: "code (projr (progpilot_issue (JObj []))) = []"
    using t by simp
  have c4: "aegis_code (projr (aegis_psalm_issue (JObj [(''snippet'', JStr ''  $x = 1;  '')])))
       = JStr ''$x = 1;''"
    using t by (simp add: s py_strip_def)
  have c5: "aegis_code (projr (aegis_parse_issue (JObj [(''code'', JStr ''  x '')]))) = JStr ''  x ''"
    using t by (simp add: dget_def)
  have c6: "aegis_code (projr (aegis_progpilot_issue (JObj []))) = JStr []"
    using t by (simp add: dget_def)
  show ?thesis
    using h1 h2 h3 h4 h5 h6 c1 c2 c3 c4 c5 c6 by (simp only: simp_thms)
qed

subsection \<open>Bounded string fields\<close>

lemma truncation_law_slice: "truncation_law n s (slice_to n s)"
  by (simp add: truncation_law_def slice_to_def take_is_prefix)

lemma truncation_law_unique: "truncation_law n s t \<Longrightarrow> t = slice_to n s"
  by (auto simp: truncation_law_def slice_to_def prefix_def split: if_splits)

lemma psalm_issue_fields:
  assumes "psalm_issue (JObj d) = Inr f"
  shows "title f = slice_to 500 (py_str (dget d ''message'' (JStr [])))"
    and "file_path f = slice_to 1000 (py_str (dget d ''file_name'' (JStr [])))"
  using assms by (auto simp: psalm_issue_def split: sum.splits)

lemma parse_issue_fields:
  assumes "parse_issue (JObj d) = Inr f"
  shows "title f = slice_to 500 (py_str (py_or (dget d ''title'' JNull) (dget d ''message'' (JStr []))))"
    and "file_path f = slice_to 1000 (py_str (dget d ''file'' (JStr [])))"
  using assms by (auto simp: parse_issue_def split: sum.splits)

lemma progpilot_issue_fields:
  assumes "progpilot_issue (JObj d) = Inr f"
  shows "title f
           = slice_to 500 (py_str (py_or (dget d ''description'' JNull) (dget d ''message'' (JStr []))))"
    and "file_path f = slice_to 1000 (py_str (dget d ''file'' (JStr [])))"
  using assms by (auto simp: progpilot_issue_def split: sum.splits)

text \<open>
  C3 (as the specification states it: every adapter bounds title, file and
  code). The psalm adapter of \<^verbatim>\<open>aegisphp.py\<close> stores \<^verbatim>\<open>issue.get("message")\<close> as
  it is: for a message of 501 characters the title has all 501 characters, more
  than the bound of 500. That variant bounds no field.
\<close>

theorem truncation_law_counterexample:
  "500 < length (replicate 501 CHR ''a'')
   \<and> map_sum id aegis_title
        (aegis_psalm_issue (JObj [(''message'', JStr (replicate 501 CHR ''a''))]))
       = Inr (JStr (replicate 501 CHR ''a''))"
proof -
  have l0: "lower [] = []" by (simp add: lower_def)
  have a: "map_sum id aegis_title
        (aegis_psalm_issue (JObj [(''message'', JStr (replicate 501 CHR ''a''))]))
       = Inr (JStr (replicate 501 CHR ''a''))"
    by (simp add: aegis_psalm_issue_def dget_def py_lower_def py_strip_def l0)
  show ?thesis using a by simp
qed

text \<open>
  C3, amended. In \<^verbatim>\<open>phalanx.py\<close> every adapter cuts title to 500 and file and
  code to 1000 characters, and each of these fields obeys the truncation law
  with respect to the string that is cut: \<^verbatim>\<open>str\<close> of the raw value (a raw
  string is itself; for the title the first non-empty candidate), and for the
  code of psalm that string with its surrounding whitespace stripped. So when
  the string that is cut is longer than the bound, the field has exactly the
  bound's length and is a prefix of it. The adapters of \<^verbatim>\<open>aegisphp.py\<close> store
  title, file and code as the raw values (the code of psalm stripped), without
  a bound.
\<close>

theorem bounded_fields_truncation:
  assumes "psalm_issue (JObj d1) = Inr f1"
    and "parse_issue (JObj d2) = Inr f2"
    and "progpilot_issue (JObj d3) = Inr f3"
    and "aegis_psalm_issue (JObj d4) = Inr g4"
    and "aegis_parse_issue (JObj d5) = Inr g5"
    and "aegis_progpilot_issue (JObj d6) = Inr g6"
  shows "truncation_law 500 (py_str (dget d1 ''message'' (JStr []))) (title f1)
       \<and> truncation_law 1000 (py_str (dget d1 ''file_name'' (JStr []))) (file_path f1)
       \<and> truncation_law 1000 (strip (py_str (dget d1 ''snippet'' (JStr [])))) (code f1)
       \<and> truncation_law 500
            (py_str (py_or (dget d2 ''title'' JNull) (dget d2 ''message'' (JStr [])))) (title f2)
       \<and> truncation_law 1000 (py_str (dget d2 ''file'' (JStr []))) (file_path f2)
       \<and> truncation_law 1000 (py_str (dget d2 ''code'' (JStr []))) (code f2)
       \<and> truncation_law 500
            (py_str (py_or (dget d3 ''description'' JNull) (dget d3 ''message'' (JStr []))))
            (title f3)
       \<and> truncation_law 1000 (py_str (dget d3 ''file'' (JStr []))) (file_path f3)
       \<and> truncation_law 1000 (py_str (dget d3 ''code'' (JStr []))) (code f3)
       \<and> py_str (JStr s) = s
       \<and> aegis_title g4 = dget d4 ''message'' JNull
       \<and> aegis_file g4 = dget d4 ''file_name'' JNull
       \<and> py_strip (dget d4 ''snippet'' (JStr [])) = Inr (projr (py_strip (dget d4 ''snippet'' (JStr []))))
       \<and> aegis_code g4 = JStr (projr (py_strip (dget d4 ''snippet'' (JStr []))))
       \<and> aegis_title g5 = py_or (dget d5 ''title'' JNull) (dget d5 ''message'' JNull)
       \<and> aegis_file g5 = dget d5 ''file'' JNull
       \<and> aegis_code g5 = dget d5 ''code'' (JStr [])
       \<and> aegis_title g6 = py_or (dget d6 ''description'' JNull) (dget d6 ''message'' JNull)
       \<and> aegis_file g6 = dget d6 ''file'' JNull
       \<and> aegis_code g6 = dget d6 ''code'' (JStr [])"
proof -
  have a4: "aegis_title g4 = dget d4 ''message'' JNull \<and> aegis_file g4 = dget d4 ''file_name'' JNull
          \<and> py_strip (dget d4 ''snippet'' (JStr []))
              = Inr (projr (py_strip (dget d4 ''snippet'' (JStr []))))
          \<and> aegis_code g4 = JStr (projr (py_strip (dget d4 ''snippet'' (JStr []))))"
    using assms(4) by (auto simp: aegis_psalm_issue_def split: sum.splits)
  have a5: "aegis_title g5 = py_or (dget d5 ''title'' JNull) (dget d5 ''message'' JNull)
          \<and> aegis_file g5 = dget d5 ''file'' JNull \<and> aegis_code g5 = dget d5 ''code'' (JStr [])"
    using assms(5) by (auto simp: aegis_parse_issue_def split: sum.splits)
  have a6: "aegis_title g6 = py_or (dget d6 ''description'' JNull) (dget d6 ''message'' JNull)
          \<and> aegis_file g6 = dget d6 ''file'' JNull \<and> aegis_code g6 = dget d6 ''code'' (JStr [])"
    using assms(6) by (auto simp: aegis_progpilot_issue_def split: sum.splits)
  show ?thesis
    using a4 a5 a6
    by (simp add: psalm_issue_fields [OF assms(1)] psalm_issue_code [OF assms(1)]
        parse_issue_fields [OF assms(2)] parse_issue_code [OF assms(2)]
        progpilot_issue_fields [OF assms(3)] progpilot_issue_code [OF assms(3)]
        truncation_law_slice py_str_JStr)
qed

theorem bounded_fields_truncation_witness:
  "psalm_issue (JObj [(''message'', JStr (replicate 501 CHR ''a'')), (''snippet'', JStr '' x '')])
     = Inr (projr (psalm_issue
         (JObj [(''message'', JStr (replicate 501 CHR ''a'')), (''snippet'', JStr '' x '')])))
   \<and> parse_issue (JObj [(''message'', JStr ''m''), (''file'', JStr ''b.php'')])
       = Inr (projr (parse_issue (JObj [(''message'', JStr ''m''), (''file'', JStr ''b.php'')])))
   \<and> progpilot_issue (JObj [(''code'', JStr '' y'')])
       = Inr (projr (progpilot_issue (JObj [(''code'', JStr '' y'')])))
   \<and> aegis_psalm_issue (JObj [(''message'', JStr (replicate 501 CHR ''a''))])
       = Inr (projr (aegis_psalm_issue (JObj [(''message'', JStr (replicate 501 CHR ''a''))])))
   \<and> aegis_parse_issue (JObj []) = Inr (projr (aegis_parse_issue (JObj [])))
   \<and> aegis_progpilot_issue (JObj []) = Inr (projr (aegis_progpilot_issue (JObj [])))
   \<and> length (title (projr (psalm_issue
         (JObj [(''message'', JStr (replicate 501 CHR ''a'')), (''snippet'', JStr '' x '')])))) = 500
   \<and> prefix (title (projr (psalm_issue
         (JObj [(''message'', JStr (replicate 501 CHR ''a'')), (''snippet'', JStr '' x '')]))))
        (replicate 501 CHR ''a'')
   \<and> code (projr (psalm_issue
         (JObj [(''message'', JStr (replicate 501 CHR ''a'')), (''snippet'', JStr '' x '')]))) = ''x''
   \<and> title (projr (parse_issue (JObj [(''message'', JStr ''m''), (''file'', JStr ''b.php'')]))) = ''m''
   \<and> file_path (projr (parse_issue (JObj [(''message'', JStr ''m''), (''file'', JStr ''b.php'')])))
       = ''b.php''
   \<and> code (projr (progpilot_issue (JObj [(''code'', JStr '' y'')]))) = '' y''
   \<and> aegis_title (projr (aegis_psalm_issue (JObj [(''message'', JStr (replicate 501 CHR ''a''))])))
       = JStr (replicate 501 CHR ''a'')
   \<and> aegis_code (projr (aegis_psalm_issue (JObj [(''message'', JStr (replicate 501 CHR ''a''))])))
       = JStr []
   \<and> aegis_code (projr (aegis_parse_issue (JObj []))) = JStr []"
proof -
  let ?d1 = "[(''message'', JStr (replicate 501 CHR ''a'')), (''snippet'', JStr '' x '')]"
  let ?d2 = "[(''message'', JStr ''m''), (''file'', JStr ''b.php'')]"
  let ?d3 = "[(''code'', JStr '' y'')]"
  let ?d4 = "[(''message'', JStr (replicate 501 CHR ''a''))]"
  have l0: "lower [] = []" "lower ''warning'' = ''warning''" "lower ''medium'' = ''medium''"
    by (rule lower_defaults)+
  have h1: "psalm_issue (JObj ?d1) = Inr (projr (psalm_issue (JObj ?d1)))"
    by (simp add: psalm_issue_def dget_def py_lower_def py_int_def l0)
  have h2: "parse_issue (JObj ?d2) = Inr (projr (parse_issue (JObj ?d2)))"
    by (simp add: parse_issue_def dget_def py_lower_def py_int_def l0)
  have h3: "progpilot_issue (JObj ?d3) = Inr (projr (progpilot_issue (JObj ?d3)))"
    by (simp add: progpilot_issue_def dget_def py_lower_def py_int_def l0)
  have h4: "aegis_psalm_issue (JObj ?d4) = Inr (projr (aegis_psalm_issue (JObj ?d4)))"
    by (simp add: aegis_psalm_issue_def dget_def py_lower_def py_strip_def l0)
  have h5: "aegis_parse_issue (JObj []) = Inr (projr (aegis_parse_issue (JObj [])))"
    by (simp add: aegis_parse_issue_def dget_def py_lower_def l0)
  have h6: "aegis_progpilot_issue (JObj []) = Inr (projr (aegis_progpilot_issue (JObj [])))"
    by (simp add: aegis_progpilot_issue_def dget_def py_lower_def l0)
  have sx: "strip '' x '' = ''x''" by code_simp
  note t = bounded_fields_truncation [OF h1 h2 h3 h4 h5 h6]
  have c1: "length (title (projr (psalm_issue (JObj ?d1)))) = 500
          \<and> prefix (title (projr (psalm_issue (JObj ?d1)))) (replicate 501 CHR ''a'')"
    using t by (simp add: truncation_law_def dget_def py_str_def)
  have c2: "code (projr (psalm_issue (JObj ?d1))) = ''x''"
    using t by (simp add: truncation_law_def dget_def py_str_def sx)
  have c3: "title (projr (parse_issue (JObj ?d2))) = ''m''
          \<and> file_path (projr (parse_issue (JObj ?d2))) = ''b.php''"
    using t by (simp add: truncation_law_def dget_def py_str_def py_or_def py_truthy_def)
  have c4: "code (projr (progpilot_issue (JObj ?d3))) = '' y''"
    using t by (simp add: truncation_law_def dget_def py_str_def)
  have c5: "aegis_title (projr (aegis_psalm_issue (JObj ?d4))) = JStr (replicate 501 CHR ''a'')"
    using t by (simp add: dget_def)
  have c6: "aegis_code (projr (aegis_psalm_issue (JObj ?d4))) = JStr []"
    using t by (simp add: dget_def py_strip_def strip_Nil)
  have c7: "aegis_code (projr (aegis_parse_issue (JObj []))) = JStr []"
    using t by (simp add: dget_def)
  show ?thesis
    using h1 h2 h3 h4 h5 h6 c1 c2 c3 c4 c5 c6 c7 by (simp only: simp_thms)
qed

subsection \<open>A payload without a list of issues\<close>









end
